theory Spec2Isabelle
  imports Complex_Main "HOL-Library.Sublist"
begin

section \<open>Content generation route: a shallow embedding\<close>

text \<open>
  The route handler (\<^verbatim>\<open>POST\<close>) and its helpers \<^verbatim>\<open>validateApiKey\<close>,
  \<^verbatim>\<open>analyzeBrandVoice\<close>, \<^verbatim>\<open>detectImageRequest\<close>, \<^verbatim>\<open>extractVisualStyle\<close>,
  \<^verbatim>\<open>generateSVGImage\<close> and \<^verbatim>\<open>generateContentForFormat\<close> are embedded as HOL functions.

  \<^item> Values of type \<^verbatim>\<open>any\<close> (the calibration examples) are JSON values. So is the brand
    voice: it is what \<^verbatim>\<open>JSON.parse\<close> returned for the reply of the analysis, or what the
    request body carried, and the code uses it at the type \<^verbatim>\<open>BrandVoiceAnalysis\<close> without
    looking at its shape. A property that is missing is undefined, and
    \<^verbatim>\<open>brandVoice.terminology.join\<close> raises unless the terminology is an array.
  \<^item> The conversion of a JSON value to a string, in a template literal or by \<^verbatim>\<open>join\<close>,
    raises a \<^verbatim>\<open>TypeError\<close> on an object that has a property of its own named
    \<^verbatim>\<open>toString\<close> and on an array that holds such an object, and returns on every other
    value. The text it returns for a value that is not a string is given by a function
    \<open>toText\<close>, the runtime's \<^verbatim>\<open>String\<close>.
  \<^item> A call of the generative service is an input of the model: its outcome is either a
    thrown error or a reply (a list of content blocks). The n-th call of a request gets
    the outcome \<open>svc n\<close> of an arbitrary function \<open>svc\<close>, and every call is appended to a
    call log. The prompt text sent to the service influences nothing but the service, so
    it is not part of the model; the log records which call was made.
  \<^item> Every \<^verbatim>\<open>throw\<close> is a value of type \<open>Thrown\<close>; a function that can raise returns a sum
    with the thrown value on the left.
  \<^item> JavaScript numbers are rationals: the consistency score is computed exactly, the
    rounding of IEEE doubles is not modelled.
  \<^item> Strings are byte strings (\<open>char list\<close>). \<^verbatim>\<open>toLowerCase\<close>, \<^verbatim>\<open>trim\<close> and the
    regular-expression class \<^verbatim>\<open>\s\<close> are modelled by their action on ASCII: a byte
    outside ASCII is left as it is by \<^verbatim>\<open>toLowerCase\<close> and is not white space.
\<close>

subsection \<open>Strings\<close>

definition lowerChar :: "char \<Rightarrow> char" where
  "lowerChar c =
     (case map_of (zip ''ABCDEFGHIJKLMNOPQRSTUVWXYZ'' ''abcdefghijklmnopqrstuvwxyz'') c of
        Some l \<Rightarrow> l
      | None \<Rightarrow> c)"

definition toLowerCase :: "string \<Rightarrow> string" where
  "toLowerCase s = map lowerChar s"

text \<open>\<^verbatim>\<open>s.includes(t)\<close>: \<open>t\<close> occurs in \<open>s\<close> as a contiguous substring.\<close>

definition js_includes :: "string \<Rightarrow> string \<Rightarrow> bool" where
  "js_includes s t = sublist t s"

definition startsWith :: "string \<Rightarrow> string \<Rightarrow> bool" where
  "startsWith s t = prefix t s"

definition isSpace :: "char \<Rightarrow> bool" where
  "isSpace c = (c \<in> set [CHR 0x09, CHR 0x0A, CHR 0x0B, CHR 0x0C, CHR 0x0D, CHR 0x20])"

definition trim :: "string \<Rightarrow> string" where
  "trim s = rev (dropWhile isSpace (rev (dropWhile isSpace s)))"

text \<open>\<^verbatim>\<open>xs.some(p)\<close> for a predicate that cannot raise.\<close>

definition some :: "('a \<Rightarrow> bool) \<Rightarrow> 'a list \<Rightarrow> bool" where
  "some p xs = list_ex p xs"

subsection \<open>Data\<close>

record GeneratedContent =
  format :: string
  content :: string
  consistencyScore :: "rat option"
  title :: "string option"
  imageUrl :: "string option"

text \<open>
  The first block of a reply is read; a block whose \<^verbatim>\<open>type\<close> is not \<^verbatim>\<open>"text"\<close> carries
  nothing the code reads.
\<close>

datatype ContentBlock = TextBlock string | OtherBlock

text \<open>
  The \<^verbatim>\<open>error\<close> property of a service error (\<^verbatim>\<open>apiError.error\<close>), with its \<^verbatim>\<open>type\<close> and
  \<^verbatim>\<open>message\<close>.
\<close>

datatype ErrorBody = ErrorBody (errorType: "string option") (errorMessage: "string option")

text \<open>
  Thrown values are \<^verbatim>\<open>Error\<close> instances, so the message the \<^verbatim>\<open>catch\<close> blocks report is
  \<^verbatim>\<open>error.message\<close>. \<open>ApiError\<close> has a \<^verbatim>\<open>status\<close> property (possibly undefined), an
  optional \<^verbatim>\<open>error\<close> body and a \<^verbatim>\<open>message\<close>; \<open>JsError\<close> is any other error (a
  \<^verbatim>\<open>TypeError\<close> of the runtime, a \<^verbatim>\<open>SyntaxError\<close> of \<^verbatim>\<open>JSON.parse\<close>) with its
  \<^verbatim>\<open>message\<close> and no \<^verbatim>\<open>status\<close>.
\<close>

datatype Thrown =
  ApiError (apiStatus: "nat option") (apiBody: "ErrorBody option") (apiMessage: string)
  | JsError (jsMessage: string)

datatype ServiceResult = Raises Thrown | Reply "ContentBlock list"

text \<open>
  The message of the \<^verbatim>\<open>TypeError\<close> raised by \<^verbatim>\<open>content.type\<close> when the reply has no
  block (\<^verbatim>\<open>message.content[0]\<close> is undefined).
\<close>

definition noBlockError :: Thrown where
  "noBlockError = JsError ''Cannot read properties of undefined (reading 'type')''"

subsection \<open>Values of type any\<close>

text \<open>
  The calibration examples arrive in the JSON body of the request and are passed on as
  \<^verbatim>\<open>any[]\<close>; the brand voice is decoded from a service reply or arrives in the body. An
  object is the list of its own properties, each name once.
\<close>

datatype json =
  JNull
  | JBool bool
  | JNum rat
  | JStr string
  | JArr "json list"
  | JObj "(string \<times> json) list"

text \<open>Truthiness of a value, and of a property that may be undefined (\<open>None\<close>).\<close>

fun truthy :: "json \<Rightarrow> bool" where
  "truthy JNull = False"
| "truthy (JBool b) = b"
| "truthy (JNum n) = (n \<noteq> 0)"
| "truthy (JStr s) = (s \<noteq> [])"
| "truthy (JArr xs) = True"
| "truthy (JObj kvs) = True"

definition truthyOpt :: "json option \<Rightarrow> bool" where
  "truthyOpt v = (case v of None \<Rightarrow> False | Some x \<Rightarrow> truthy x)"

text \<open>
  \<^verbatim>\<open>v.name\<close> for a truthy \<open>v\<close> and one of the names the code reads (\<^verbatim>\<open>type\<close>,
  \<^verbatim>\<open>content\<close>, \<^verbatim>\<open>text\<close>, \<^verbatim>\<open>textContent\<close> of an example; \<^verbatim>\<open>tone\<close>, \<^verbatim>\<open>style\<close>,
  \<^verbatim>\<open>terminology\<close>, \<^verbatim>\<open>structure\<close>, \<^verbatim>\<open>visualStyle\<close> of a brand voice): the own property of
  an object; undefined on a string, number, boolean or array, whose prototypes have no
  property of these names.
\<close>

fun getProp :: "json \<Rightarrow> string \<Rightarrow> json option" where
  "getProp (JObj kvs) name = map_of kvs name"
| "getProp v name = None"

text \<open>\<^verbatim>\<open>a || b\<close>\<close>

definition orJ :: "json option \<Rightarrow> json option \<Rightarrow> json option" where
  "orJ a b = (if truthyOpt a then a else b)"

text \<open>\<^verbatim>\<open>a || b\<close> where \<open>b\<close> is a value.\<close>

definition orValue :: "json option \<Rightarrow> json \<Rightarrow> json" where
  "orValue a b = (case a of None \<Rightarrow> b | Some v \<Rightarrow> if truthy v then v else b)"

text \<open>
  The conversion of a value to a string returns (\<open>stringifies\<close>) unless the value is an
  object with a property of its own named \<^verbatim>\<open>toString\<close>: a JSON value is no function, so
  the property hides the method that every object inherits, and the inherited
  \<^verbatim>\<open>valueOf\<close> returns the object itself. An array is converted by joining its converted
  elements. \<open>converts\<close> is the same for a property that may be undefined, and
  \<open>cannotConvert\<close> is the \<^verbatim>\<open>TypeError\<close> that is raised.
\<close>

fun stringifies :: "json \<Rightarrow> bool" where
  "stringifies (JObj kvs) = (map_of kvs ''toString'' = None)"
| "stringifies (JArr xs) = list_all stringifies xs"
| "stringifies v = True"

definition converts :: "json option \<Rightarrow> bool" where
  "converts v = (case v of None \<Rightarrow> True | Some x \<Rightarrow> stringifies x)"

definition cannotConvert :: Thrown where
  "cannotConvert = JsError ''Cannot convert object to primitive value''"

text \<open>A value in a template literal: a string as it is, another value as \<open>toText\<close> gives it.\<close>

definition inTemplate :: "(json \<Rightarrow> string) \<Rightarrow> json \<Rightarrow> string" where
  "inTemplate toText v = (case v of JStr s \<Rightarrow> s | _ \<Rightarrow> toText v)"

text \<open>\<^verbatim>\<open>xs.some(p)\<close> for a callback that can raise: the first true or raising element decides.\<close>

fun someE :: "('a \<Rightarrow> Thrown + bool) \<Rightarrow> 'a list \<Rightarrow> Thrown + bool" where
  "someE p [] = Inr False"
| "someE p (x # xs) =
     (case p x of
        Inl e \<Rightarrow> Inl e
      | Inr b \<Rightarrow> if b then Inr True else someE p xs)"

text \<open>
  \<^verbatim>\<open>xs.filter(p)\<close> for a callback that can raise: the elements are tested in order, and
  the first one on which the callback raises ends the call.
\<close>

fun filterE :: "('a \<Rightarrow> Thrown + bool) \<Rightarrow> 'a list \<Rightarrow> Thrown + 'a list" where
  "filterE p [] = Inr []"
| "filterE p (x # xs) =
     (case p x of
        Inl e \<Rightarrow> Inl e
      | Inr b \<Rightarrow>
          (case filterE p xs of
             Inl e \<Rightarrow> Inl e
           | Inr ys \<Rightarrow> Inr (if b then x # ys else ys)))"

subsection \<open>generateContentForFormat\<close>

text \<open>The cross mark U+274C that starts the error bodies, in UTF-8.\<close>

definition crossMark :: string where
  "crossMark = [CHR 0xE2, CHR 0x9D, CHR 0x8C]"

text \<open>\<^verbatim>\<open>a || b\<close> on an optional string: the empty string and undefined are falsy.\<close>

definition orElse :: "string option \<Rightarrow> string \<Rightarrow> string" where
  "orElse a b = (case a of None \<Rightarrow> b | Some s \<Rightarrow> if s = [] then b else s)"

definition bodyType :: "ErrorBody option \<Rightarrow> string option" where
  "bodyType b = (case b of None \<Rightarrow> None | Some x \<Rightarrow> errorType x)"

definition bodyMessage :: "ErrorBody option \<Rightarrow> string option" where
  "bodyMessage b = (case b of None \<Rightarrow> None | Some x \<Rightarrow> errorMessage x)"

definition artifact :: "string \<Rightarrow> string \<Rightarrow> rat option \<Rightarrow> GeneratedContent" where
  "artifact fmt body score =
     \<lparr>format = fmt, content = body, consistencyScore = score, title = None, imageUrl = None\<rparr>"

text \<open>
  Lines 393--402, before the \<^verbatim>\<open>try\<close>: the brand voice context of the prompt is built when
  the brand voice is truthy. The template converts \<^verbatim>\<open>brandVoice.tone\<close> and
  \<^verbatim>\<open>brandVoice.style\<close>, then the outcome of \<^verbatim>\<open>brandVoice.terminology.join(", ")\<close>, which
  raises a \<^verbatim>\<open>TypeError\<close> unless the terminology is an array and converts the elements of
  the array, then \<^verbatim>\<open>brandVoice.structure\<close>. The value is the array that was joined, \<open>None\<close>
  when there is no truthy brand voice.
\<close>

definition brandVoiceContext :: "json option \<Rightarrow> Thrown + json list option" where
  "brandVoiceContext brandVoice =
     (case brandVoice of
        None \<Rightarrow> Inr None
      | Some bv \<Rightarrow>
          if \<not> truthy bv then Inr None
          else if converts (getProp bv ''tone'') \<and> converts (getProp bv ''style'') then
            (case getProp bv ''terminology'' of
               None \<Rightarrow> Inl (JsError ''Cannot read properties of undefined (reading 'join')'')
             | Some JNull \<Rightarrow> Inl (JsError ''Cannot read properties of null (reading 'join')'')
             | Some (JArr terms) \<Rightarrow>
                 if list_all stringifies terms \<and> converts (getProp bv ''structure'') then
                   Inr (Some terms)
                 else Inl cannotConvert
             | Some v \<Rightarrow> Inl (JsError ''brandVoice.terminology.join is not a function''))
          else Inl cannotConvert)"

text \<open>
  Lines 448--450, the callback of \<^verbatim>\<open>filter\<close>: \<^verbatim>\<open>contentText.includes(term.toLowerCase())\<close>
  raises a \<^verbatim>\<open>TypeError\<close> on a term that is not a string.
\<close>

definition termOccurs :: "string \<Rightarrow> json \<Rightarrow> Thrown + bool" where
  "termOccurs contentText term =
     (case term of
        JStr s \<Rightarrow> Inr (js_includes contentText (toLowerCase s))
      | JNull \<Rightarrow> Inl (JsError ''Cannot read properties of null (reading 'toLowerCase')'')
      | _ \<Rightarrow> Inl (JsError ''term.toLowerCase is not a function''))"

text \<open>
  Lines 443--455: the consistency score of a reply text. The statement is reached when
  line 398 did not raise, so \<^verbatim>\<open>brandVoice.terminology\<close> is the array \<open>terms\<close> that was
  joined there whenever the brand voice is truthy: an array is truthy, and the test
  \<^verbatim>\<open>brandVoice && brandVoice.terminology && brandVoice.terminology.length > 0\<close> of line 445
  is \<open>0 < length terms\<close>. Without a truthy brand voice (\<open>None\<close>) both tests fail and the
  score stays undefined.
\<close>

definition consistencyScoreOf :: "json list option \<Rightarrow> string \<Rightarrow> Thrown + rat option" where
  "consistencyScoreOf terminology replyText =
     (case terminology of
        None \<Rightarrow> Inr None
      | Some terms \<Rightarrow>
          if 0 < length terms then
            (let contentText = toLowerCase replyText
             in case filterE (termOccurs contentText) terms of
                  Inl e \<Rightarrow> Inl e
                | Inr matching \<Rightarrow>
                    (let matchingTerms = length matching
                     in Inr (Some (min 95
                          (70 + (of_nat matchingTerms / of_nat (length terms)) * 25)))))
          else Inr (Some 75))"

text \<open>Lines 463--500: the \<^verbatim>\<open>catch\<close> block.\<close>

definition generationFailed :: "string \<Rightarrow> Thrown \<Rightarrow> GeneratedContent" where
  "generationFailed fmt e =
     (case e of
        ApiError st b m \<Rightarrow>
          if st = Some 401 \<or> bodyType b = Some ''authentication_error'' then
            artifact fmt
              (crossMark @ '' Authentication Error: '' @ orElse (bodyMessage b) ''Invalid API key''
                @ ''. Please check your ANTHROPIC_API_KEY in Vercel environment variables.'')
              None
          else if st = Some 400 \<or> bodyType b = Some ''invalid_request_error'' then
            artifact fmt
              (crossMark @ '' Request Error: '' @ orElse (bodyMessage b) ''Invalid request''
                @ ''. Please try again with different parameters.'')
              None
          else
            artifact fmt
              (crossMark @ '' Error generating '' @ fmt @ '' content: '' @ m
                @ ''. Please check your API key and try again.'')
              None
      | JsError m \<Rightarrow>
          artifact fmt
            (crossMark @ '' Error generating '' @ fmt @ '' content: '' @ m
              @ ''. Please check your API key and try again.'')
            None)"

text \<open>
  Lines 429--506, from the \<^verbatim>\<open>try\<close> on, given the outcome \<open>r\<close> of the service call and the
  terminology that line 398 joined. The value is \<^verbatim>\<open>GeneratedContent | null\<close>. Whatever is
  raised here (by the call, by reading a reply without a block, by a term that is not a
  string) is caught and becomes an artifact.
\<close>

definition generationOfReply ::
  "string \<Rightarrow> json list option \<Rightarrow> ServiceResult \<Rightarrow> GeneratedContent option" where
  "generationOfReply fmt terminology r =
     (case r of
        Raises e \<Rightarrow> Some (generationFailed fmt e)
      | Reply [] \<Rightarrow> Some (generationFailed fmt noBlockError)
      | Reply (TextBlock t # bs) \<Rightarrow>
          (case consistencyScoreOf terminology t of
             Inl e \<Rightarrow> Some (generationFailed fmt e)
           | Inr score \<Rightarrow> Some (artifact fmt t score))
      | Reply (OtherBlock # bs) \<Rightarrow>
          Some (artifact fmt (''Error generating '' @ fmt @ '' content. Please try again.'') None))"

text \<open>
  \<open>generateContentForFormat topic industry fmt brandVoice r\<close>, where \<open>r\<close> is the outcome of
  the one service call the function makes. The statements before the \<^verbatim>\<open>try\<close> build the
  prompt: when the brand voice context raises there, the function raises (its promise is
  rejected) and no call is made. The other substitutions of the prompt are strings.
\<close>

definition generateContentForFormat ::
  "string \<Rightarrow> string \<Rightarrow> string \<Rightarrow> json option \<Rightarrow> ServiceResult
     \<Rightarrow> Thrown + GeneratedContent option" where
  "generateContentForFormat topic industry fmt brandVoice r =
     (case brandVoiceContext brandVoice of
        Inl e \<Rightarrow> Inl e
      | Inr terminology \<Rightarrow> Inr (generationOfReply fmt terminology r))"

subsection \<open>detectImageRequest\<close>

record ImageIntentResult =
  wantsImage :: bool
  imageOnly :: bool
  reasoning :: string

definition imageKeywords :: "string list" where
  "imageKeywords =
     [''image'', ''visual'', ''graphic'', ''picture'', ''photo'', ''illustration'',
      ''design'', ''artwork'', ''poster'', ''banner'', ''infographic'', ''thumbnail'',
      ''cover image'', ''hero image'', ''feature image'', ''create an image'',
      ''generate an image'', ''make an image'', ''show me'', ''visualize'']"

definition imageOnlyKeywords :: "string list" where
  "imageOnlyKeywords =
     [''just an image'', ''only an image'', ''only image'', ''just image'',
      ''image only'', ''no text'', ''without text'', ''skip the text'',
      ''just the visual'', ''only the visual'', ''only visual'']"

text \<open>\<^verbatim>\<open>ex && (ex.type === 'image' || ex.type === 'mixed')\<close>\<close>

definition isImageExample :: "json \<Rightarrow> bool" where
  "isImageExample ex =
     (truthy ex \<and>
      (getProp ex ''type'' = Some (JStr ''image'') \<or> getProp ex ''type'' = Some (JStr ''mixed'')))"

text \<open>
  The \<^verbatim>\<open>TypeError\<close> of \<^verbatim>\<open>(ex.textContent || ex.content || '').toLowerCase()\<close> when the value
  is truthy and not a string.
\<close>

definition notAFunction :: Thrown where
  "notAFunction =
     JsError ''(ex.textContent || ex.content || \"\").toLowerCase is not a function''"

definition textToCheck :: "json \<Rightarrow> Thrown + string" where
  "textToCheck ex =
     (case orJ (orJ (getProp ex ''textContent'') (getProp ex ''content'')) (Some (JStr [])) of
        Some (JStr s) \<Rightarrow> Inr (toLowerCase s)
      | _ \<Rightarrow> Inl notAFunction)"

definition mentionsImage :: "json \<Rightarrow> Thrown + bool" where
  "mentionsImage ex =
     (if \<not> truthy ex then Inr False
      else (case textToCheck ex of
              Inl e \<Rightarrow> Inl e
            | Inr txt \<Rightarrow> Inr (some (\<lambda>keyword. js_includes txt keyword) imageKeywords)))"

definition detectImageRequest :: "string \<Rightarrow> json list option \<Rightarrow> Thrown + ImageIntentResult" where
  "detectImageRequest topic brandVoiceExamples =
     (let hasImageInBrandVoice = map_option (some isImageExample) brandVoiceExamples;
          topicLower = toLowerCase topic;
          containsImageKeyword = some (\<lambda>keyword. js_includes topicLower keyword) imageKeywords
      in case (case brandVoiceExamples of
                 None \<Rightarrow> Inr False
               | Some exs \<Rightarrow> someE mentionsImage exs) of
           Inl e \<Rightarrow> Inl e
         | Inr brandVoiceTextHasImageKeyword \<Rightarrow>
             (let isImageOnly =
                    some (\<lambda>keyword. js_includes topicLower keyword) imageOnlyKeywords;
                  wants = (containsImageKeyword \<or> (hasImageInBrandVoice = Some True)
                             \<or> brandVoiceTextHasImageKeyword)
              in Inr \<lparr>wantsImage = wants,
                      imageOnly = isImageOnly,
                      reasoning =
                        (if isImageOnly then
                           ''User explicitly requested image only, no text content''
                         else if containsImageKeyword then
                           ''Topic contains image-related keywords''
                         else if brandVoiceTextHasImageKeyword then
                           ''Brand voice text description mentions image-related keywords''
                         else if hasImageInBrandVoice = Some True then
                           ''Brand voice calibration includes images, suggesting visual style preference''
                         else [])\<rparr>))"

subsection \<open>Example normalization\<close>

text \<open>
  Lines 532--544 of \<^verbatim>\<open>POST\<close>: \<^verbatim>\<open>examplesToUse\<close>. When the first entry is a string, every
  entry is wrapped as the content of a text example; otherwise the array is used as it is.
\<close>

definition textExample :: "json \<Rightarrow> json" where
  "textExample ex = JObj [(''type'', JStr ''text''), (''content'', ex)]"

definition isString :: "json \<Rightarrow> bool" where
  "isString v = (case v of JStr s \<Rightarrow> True | _ \<Rightarrow> False)"

definition examplesToUse :: "json option \<Rightarrow> json list" where
  "examplesToUse brandVoiceExamples =
     (case brandVoiceExamples of
        Some (JArr (first # others)) \<Rightarrow>
          if isString first then map textExample (first # others) else first # others
      | _ \<Rightarrow> [])"

text \<open>
  Lines 29--36 of \<^verbatim>\<open>analyzeBrandVoice\<close>: \<^verbatim>\<open>processedExamples\<close>. A string becomes a text
  example; an entry is kept when it is truthy and its \<^verbatim>\<open>content\<close> or its \<^verbatim>\<open>text\<close> property
  is truthy.
\<close>

definition processedExamples :: "json list \<Rightarrow> json list" where
  "processedExamples examples =
     filter (\<lambda>ex. truthy ex \<and> truthyOpt (orJ (getProp ex ''content'') (getProp ex ''text'')))
       (map (\<lambda>ex. if isString ex then textExample ex else ex) examples)"

subsection \<open>The regular expressions of the code\<close>

text \<open>
  \<^verbatim>\<open>text.match(re)\<close> for the three expressions the code uses. A match starts at the
  leftmost position where one exists (\<open>firstMatch\<close>); \<^verbatim>\<open>[\s\S]*\<close> is greedy, it takes as
  many characters as a match allows (\<open>greedyUpTo\<close>).
\<close>

fun firstMatch :: "(string \<Rightarrow> string option) \<Rightarrow> string \<Rightarrow> string option" where
  "firstMatch matchAt [] = matchAt []"
| "firstMatch matchAt (c # cs) =
     (case matchAt (c # cs) of
        Some m \<Rightarrow> Some m
      | None \<Rightarrow> firstMatch matchAt cs)"

text \<open>
  \<open>greedyUpTo follows closer s\<close> matches \<^verbatim>\<open>[\s\S]*\<close>, then the literal \<open>closer\<close>, at the
  start of \<open>s\<close>, where \<open>follows\<close> says whether the rest of the expression matches what
  comes after. The value is the text matched by \<^verbatim>\<open>[\s\S]*\<close> and \<open>closer\<close>: the longest one.
\<close>

fun greedyUpTo :: "(string \<Rightarrow> bool) \<Rightarrow> string \<Rightarrow> string \<Rightarrow> string option" where
  "greedyUpTo follows closer [] = (if closer = [] \<and> follows [] then Some [] else None)"
| "greedyUpTo follows closer (c # cs) =
     (case greedyUpTo follows closer cs of
        Some m \<Rightarrow> Some (c # m)
      | None \<Rightarrow>
          if prefix closer (c # cs) \<and> follows (drop (length closer) (c # cs)) then Some closer
          else None)"

text \<open>
  \<^verbatim>\<open>/```(?:json)?\s*(\{[\s\S]*\})\s*```/\<close> at the start of \<open>s\<close>; the value is group 1. After
  the fence, \<^verbatim>\<open>json\<close> is taken when it is there and \<^verbatim>\<open>\s*\<close> takes all the white space:
  giving either back leaves a character that is not \<^verbatim>\<open>{\<close>.
\<close>

definition closingFence :: "string \<Rightarrow> bool" where
  "closingFence rest = prefix ''```'' (dropWhile isSpace rest)"

definition fencedJsonAt :: "string \<Rightarrow> string option" where
  "fencedJsonAt s =
     (if prefix ''```'' s then
        (let afterFence = drop 3 s;
             afterTag = (if prefix ''json'' afterFence then drop 4 afterFence else afterFence)
         in case dropWhile isSpace afterTag of
              [] \<Rightarrow> None
            | c # body \<Rightarrow>
                if c = CHR ''{'' then map_option (\<lambda>m. c # m) (greedyUpTo closingFence ''}'' body)
                else None)
      else None)"

text \<open>\<^verbatim>\<open>/\{[\s\S]*\}/\<close> at the start of \<open>s\<close>.\<close>

definition jsonObjectAt :: "string \<Rightarrow> string option" where
  "jsonObjectAt s =
     (case s of
        [] \<Rightarrow> None
      | c # body \<Rightarrow>
          if c = CHR ''{'' then map_option (\<lambda>m. c # m) (greedyUpTo (\<lambda>rest. True) ''}'' body)
          else None)"

text \<open>\<^verbatim>\<open>/<svg[\s\S]*<\/svg>/\<close> at the start of \<open>s\<close>.\<close>

definition svgAt :: "string \<Rightarrow> string option" where
  "svgAt s =
     (if prefix ''<svg'' s then
        map_option (\<lambda>m. ''<svg'' @ m) (greedyUpTo (\<lambda>rest. True) ''</svg>'' (drop 4 s))
      else None)"

text \<open>
  \<^verbatim>\<open>s.replace(/FENCE\n?/g, '')\<close> for a literal \<open>fence\<close>: every occurrence, from left to
  right, is removed together with a line feed that follows it.
\<close>

definition dropNewline :: "string \<Rightarrow> string" where
  "dropNewline s = (case s of [] \<Rightarrow> [] | c # cs \<Rightarrow> if c = CHR 0x0A then cs else c # cs)"

function removeFence :: "string \<Rightarrow> string \<Rightarrow> string" where
  "removeFence fence [] = []"
| "removeFence fence (c # cs) =
     (if fence \<noteq> [] \<and> prefix fence (c # cs) then
        removeFence fence (dropNewline (drop (length fence) (c # cs)))
      else c # removeFence fence cs)"
  by pat_completeness auto
termination
proof (relation "measure (\<lambda>(fence, s). length s)")
  show "wf (measure (\<lambda>(fence, s). length s))" by simp
next
  fix fence :: string and c :: char and cs :: string
  assume a: "fence \<noteq> [] \<and> prefix fence (c # cs)"
  have shorter: "length (dropNewline xs) \<le> length xs" for xs
    by (simp add: dropNewline_def split: list.splits)
  have "length (dropNewline (drop (length fence) (c # cs))) \<le> length (drop (length fence) (c # cs))"
    by (rule shorter)
  also have "\<dots> < length (c # cs)"
    using a by (cases fence) simp_all
  finally show "((fence, dropNewline (drop (length fence) (c # cs))), fence, c # cs)
      \<in> measure (\<lambda>(fence, s). length s)"
    by simp
next
  fix fence :: string and c :: char and cs :: string
  show "((fence, cs), fence, c # cs) \<in> measure (\<lambda>(fence, s). length s)"
    by simp
qed

subsection \<open>analyzeBrandVoice\<close>

text \<open>
  A call of the service, as the log records it: the brand-voice analysis with the
  examples whose blocks are sent, the synthesis of the graphic for a topic, the
  generation of one format.
\<close>

datatype Call = AnalysisCall "json list" | ImageCall string | FormatCall string

text \<open>The object literal of lines 20--25 and 164--169.\<close>

definition defaultAnalysis :: json where
  "defaultAnalysis =
     JObj [(''tone'', JStr ''professional''), (''style'', JStr ''clear and concise''),
           (''terminology'', JArr []), (''structure'', JStr ''standard'')]"

text \<open>Lines 140--150: the text handed to \<^verbatim>\<open>JSON.parse\<close>.\<close>

definition extractJson :: "string \<Rightarrow> string" where
  "extractJson replyText =
     (let text0 = trim replyText;
          text1 = (case firstMatch fencedJsonAt text0 of Some g \<Rightarrow> g | None \<Rightarrow> text0)
      in case firstMatch jsonObjectAt text1 of Some m \<Rightarrow> m | None \<Rightarrow> text1)"

text \<open>
  Lines 126--153, the \<^verbatim>\<open>try\<close> block after the call. \<open>jsonParse\<close> is \<^verbatim>\<open>JSON.parse\<close>, a
  function of the runtime: it raises or returns the decoded value, which the code returns
  at the type \<^verbatim>\<open>BrandVoiceAnalysis\<close> without inspecting it. \<open>Inr None\<close>: the block is left
  without a \<^verbatim>\<open>return\<close>.
\<close>

definition analysisOfReply ::
  "(string \<Rightarrow> Thrown + json) \<Rightarrow> ServiceResult \<Rightarrow> Thrown + json option" where
  "analysisOfReply jsonParse r =
     (case r of
        Raises e \<Rightarrow> Inl e
      | Reply [] \<Rightarrow> Inl noBlockError
      | Reply (OtherBlock # bs) \<Rightarrow> Inr None
      | Reply (TextBlock t # bs) \<Rightarrow>
          (case jsonParse (extractJson t) of
             Inl e \<Rightarrow> Inl e
           | Inr analysis \<Rightarrow> Inr (Some analysis)))"

text \<open>
  \<open>analyzeBrandVoice jsonParse svc examples calls\<close>: the analysis and the extended log
  of calls.
  Lines 38--124 build the request from the processed examples; the only statements there
  that can raise are inside the inner \<^verbatim>\<open>try\<close> of the image branch, so the call is always
  reached when the example list is a non-empty array.
\<close>

definition analyzeBrandVoice ::
  "(string \<Rightarrow> Thrown + json) \<Rightarrow> (nat \<Rightarrow> ServiceResult) \<Rightarrow> json option
     \<Rightarrow> Call list \<Rightarrow> json \<times> Call list" where
  "analyzeBrandVoice jsonParse svc examples calls =
     (case examples of
        Some (JArr (x # xs)) \<Rightarrow>
          (let r = svc (length calls);
               calls' = calls @ [AnalysisCall (processedExamples (x # xs))]
           in case analysisOfReply jsonParse r of
                Inr (Some analysis) \<Rightarrow> (analysis, calls')
              | _ \<Rightarrow> (defaultAnalysis, calls'))
      | _ \<Rightarrow> (defaultAnalysis, calls))"

subsection \<open>extractVisualStyle and generateSVGImage\<close>

text \<open>
  \<^verbatim>\<open>brandVoice?.name\<close>: undefined when the brand voice is undefined or \<^verbatim>\<open>null\<close>, the
  property otherwise.
\<close>

definition voiceProp :: "json option \<Rightarrow> string \<Rightarrow> json option" where
  "voiceProp brandVoice name = (case brandVoice of None \<Rightarrow> None | Some bv \<Rightarrow> getProp bv name)"

text \<open>
  Lines 224--241. The value is what the code returns at the type \<^verbatim>\<open>string\<close>: the
  \<^verbatim>\<open>visualStyle\<close> property of the brand voice as it is when it is truthy, a string
  otherwise. The template of line 237 converts the tone, which can raise.
\<close>

definition extractVisualStyle ::
  "(json \<Rightarrow> string) \<Rightarrow> json option \<Rightarrow> json list option \<Rightarrow> Thrown + json" where
  "extractVisualStyle toText brandVoice brandVoiceExamples =
     (let hasImages = map_option (some isImageExample) brandVoiceExamples;
          tone = orValue (voiceProp brandVoice ''tone'') (JStr ''professional'');
          inferred =
            (if hasImages = Some True then
               (if stringifies tone then
                  Inr (JStr (inTemplate toText tone @ '' style with clean, modern design''))
                else Inl cannotConvert)
             else Inr (JStr []))
      in case voiceProp brandVoice ''visualStyle'' of
           Some declared \<Rightarrow> if truthy declared then Inr declared else inferred
         | None \<Rightarrow> inferred)"

definition placeholderHead :: string where
  "placeholderHead =
     ''<svg viewBox=\"0 0 1200 630\" xmlns=\"http://www.w3.org/2000/svg\">\<newline>'' @
     ''    <defs>\<newline>'' @
     ''      <linearGradient id=\"grad\" x1=\"0%\" y1=\"0%\" x2=\"100%\" y2=\"100%\">\<newline>'' @
     ''        <stop offset=\"0%\" style=\"stop-color:rgb(196,164,132);stop-opacity:1\" />\<newline>'' @
     ''        <stop offset=\"100%\" style=\"stop-color:rgb(166,137,104);stop-opacity:1\" />\<newline>'' @
     ''      </linearGradient>\<newline>'' @
     ''    </defs>\<newline>'' @
     ''    <rect width=\"1200\" height=\"630\" fill=\"url(#grad)\"/>\<newline>'' @
     ''    <text x=\"600\" y=\"315\" font-family=\"Arial, sans-serif\" font-size=\"48\" fill=\"white\" text-anchor=\"middle\">''"

definition placeholderTail :: string where
  "placeholderTail =
     ''</text>\<newline>'' @
     ''  </svg>''"

definition placeholderSvg :: "string \<Rightarrow> string" where
  "placeholderSvg topic = placeholderHead @ topic @ placeholderTail"

text \<open>Lines 343--356: what is returned for the text of a reply.\<close>

definition extractSvg :: "string \<Rightarrow> string" where
  "extractSvg replyText =
     (let svgCode = removeFence ''```'' (removeFence ''```svg'' (trim replyText))
      in if \<not> startsWith svgCode ''<svg'' then
           (case firstMatch svgAt svgCode of Some m \<Rightarrow> m | None \<Rightarrow> svgCode)
         else svgCode)"

text \<open>
  Lines 257--259: the examples whose text goes into the prompt of the graphic, kept when
  the caption (\<^verbatim>\<open>textContent\<close>) or the content is truthy.
\<close>

definition svgTextExamples :: "json list \<Rightarrow> json list" where
  "svgTextExamples brandVoiceExamples =
     filter (\<lambda>ex. truthy ex \<and> truthyOpt (orJ (getProp ex ''textContent'') (getProp ex ''content'')))
       brandVoiceExamples"

text \<open>
  Lines 254--329, the statements of the \<^verbatim>\<open>try\<close> block before the call: they build the
  request. \<^verbatim>\<open>join\<close> converts the caption or content of every example that was kept, and
  the template converts the visual style when that is truthy, the tone and the style of
  a truthy brand voice otherwise. \<open>svgRequestBuilt\<close> holds when none of the conversions
  raises, so that the call is made.
\<close>

definition svgRequestBuilt :: "json option \<Rightarrow> json option \<Rightarrow> json list option \<Rightarrow> bool" where
  "svgRequestBuilt brandVoice visualStyle brandVoiceExamples =
     ((case brandVoiceExamples of
         None \<Rightarrow> True
       | Some exs \<Rightarrow>
           list_all (\<lambda>ex. converts (orJ (getProp ex ''textContent'') (getProp ex ''content'')))
             (svgTextExamples exs)) \<and>
      (if truthyOpt visualStyle then converts visualStyle
       else if truthyOpt brandVoice then
         converts (voiceProp brandVoice ''tone'') \<and> converts (voiceProp brandVoice ''style'')
       else True))"

text \<open>
  The rest of the \<^verbatim>\<open>try\<close> block of \<^verbatim>\<open>generateSVGImage\<close>, given the outcome of its call.
\<close>

definition svgOfReply :: "ServiceResult \<Rightarrow> Thrown + string option" where
  "svgOfReply r =
     (case r of
        Raises e \<Rightarrow> Inl e
      | Reply [] \<Rightarrow> Inl noBlockError
      | Reply (OtherBlock # bs) \<Rightarrow> Inr None
      | Reply (TextBlock t # bs) \<Rightarrow> Inr (Some (extractSvg t)))"

text \<open>
  \<open>generateSVGImage topic brandVoice visualStyle brandVoiceExamples r\<close>, where \<open>r\<close> is the
  outcome of the call. Whatever is raised in the \<^verbatim>\<open>try\<close> block, before the call or after
  it, is caught, and the placeholder is returned.
\<close>

definition generateSVGImage ::
  "string \<Rightarrow> json option \<Rightarrow> json option \<Rightarrow> json list option \<Rightarrow> ServiceResult
     \<Rightarrow> string" where
  "generateSVGImage topic brandVoice visualStyleHint brandVoiceExamples r =
     (if svgRequestBuilt brandVoice visualStyleHint brandVoiceExamples then
        (case svgOfReply r of
           Inr (Some svgCode) \<Rightarrow> svgCode
         | _ \<Rightarrow> placeholderSvg topic)
      else placeholderSvg topic)"

subsection \<open>The embedded graphic\<close>

text \<open>
  \<^verbatim>\<open>encodeURIComponent\<close> on a byte string: every byte is percent-encoded but the letters,
  the digits and \<^verbatim>\<open>- _ . ! ~ * ' ( )\<close>. Then \<^verbatim>\<open>'\<close> and \<^verbatim>\<open>"\<close> are replaced. A lone
  surrogate, on which \<^verbatim>\<open>encodeURIComponent\<close> raises, has no counterpart in a byte string.
\<close>

definition hexDigit :: "nat \<Rightarrow> char" where
  "hexDigit n = ''0123456789ABCDEF'' ! n"

definition percentEncode :: "char \<Rightarrow> string" where
  "percentEncode c = [CHR ''%'', hexDigit (of_char c div 16), hexDigit (of_char c mod 16)]"

definition uriUnreserved :: "char \<Rightarrow> bool" where
  "uriUnreserved c =
     (c \<in> set (''ABCDEFGHIJKLMNOPQRSTUVWXYZ'' @ ''abcdefghijklmnopqrstuvwxyz'' @ ''0123456789''
                @ ''-_.!~*'()''))"

definition encodeURIComponent :: "string \<Rightarrow> string" where
  "encodeURIComponent s = concat (map (\<lambda>c. if uriUnreserved c then [c] else percentEncode c) s)"

definition replaceQuotes :: "string \<Rightarrow> string" where
  "replaceQuotes s =
     concat (map (\<lambda>c. if c = CHR 0x27 then ''%27'' else if c = CHR 0x22 then ''%22'' else [c]) s)"

definition dataUri :: "string \<Rightarrow> string" where
  "dataUri svg = ''data:image/svg+xml,'' @ replaceQuotes (encodeURIComponent svg)"

definition imageArtifact :: "string \<Rightarrow> GeneratedContent" where
  "imageArtifact svg =
     \<lparr>format = ''image'', content = ''SVG image generated successfully'',
      consistencyScore = None, title = Some ''Generated Image'', imageUrl = Some (dataUri svg)\<rparr>"

subsection \<open>POST\<close>

record ContentGenerationRequest =
  reqTopic :: "string option"
  reqIndustry :: "string option"
  reqFormats :: "string list option"
  reqBrandVoiceExamples :: "json option"
  reqBrandVoice :: "json option"

datatype Response =
  Success "GeneratedContent list" "json option"
  | Failure nat string "string option"

definition validateApiKey :: "string \<Rightarrow> bool" where
  "validateApiKey apiKey = (startsWith apiKey ''sk-ant-'' \<and> 20 < length apiKey)"

text \<open>Lines 633--661: the \<^verbatim>\<open>catch\<close> block of the handler.\<close>

definition postFailed :: "Thrown \<Rightarrow> Response" where
  "postFailed e =
     (case e of
        ApiError st b m \<Rightarrow>
          if st = Some 401 then
            Failure 401
              (''Authentication failed: '' @ orElse (bodyMessage b) ''Invalid API key''
                @ ''. Please verify your ANTHROPIC_API_KEY in Vercel environment variables.'')
              (Some ''Make sure your API key starts with 'sk-ant-' and has the correct format.'')
          else Failure 500 (''Internal server error: '' @ m) None
      | JsError m \<Rightarrow> Failure 500 (''Internal server error: '' @ m) None)"

text \<open>
  \<^verbatim>\<open>await Promise.all(promises)\<close>, the promises given by their outcomes in the order of
  the array: the values in that order when every promise is fulfilled, and the reason of
  the first rejected one otherwise.
\<close>

fun awaitAll :: "(Thrown + 'a) list \<Rightarrow> Thrown + 'a list" where
  "awaitAll [] = Inr []"
| "awaitAll (p # ps) =
     (case p of
        Inl e \<Rightarrow> Inl e
      | Inr v \<Rightarrow>
          (case awaitAll ps of
             Inl e \<Rightarrow> Inl e
           | Inr vs \<Rightarrow> Inr (v # vs)))"

text \<open>
  Lines 607--632. The calls of the batch are issued in the order of the formats, the
  \<open>i\<close>-th one as call number \<open>length calls + i\<close>; \<^verbatim>\<open>Promise.all\<close> collects the results in
  that order, \<^verbatim>\<open>null\<close> results are filtered out, and the graphic, if there is one, is
  attached to the first artifact.
  A member of the batch is rejected only by line 398, which depends on the brand voice
  and on nothing else: then every member is rejected before its call, no call of the
  batch is made, and the rejection is caught by the handler (lines 633--661).
\<close>

definition attachImage :: "string option \<Rightarrow> GeneratedContent list \<Rightarrow> GeneratedContent list" where
  "attachImage generatedSVG contents =
     (case contents of
        [] \<Rightarrow> []
      | c # cs \<Rightarrow>
          if orElse generatedSVG [] \<noteq> [] then
            c\<lparr>imageUrl := Some (dataUri (orElse generatedSVG []))\<rparr> # cs
          else c # cs)"

definition generateAll ::
  "string \<Rightarrow> string \<Rightarrow> string list \<Rightarrow> json option \<Rightarrow> (nat \<Rightarrow> ServiceResult) \<Rightarrow> nat
     \<Rightarrow> (Thrown + GeneratedContent option) list" where
  "generateAll topic industry formats brandVoice svc n =
     map (\<lambda>(i, fmt). generateContentForFormat topic industry fmt brandVoice (svc i))
       (enumerate n formats)"

definition generateAndRespond ::
  "string \<Rightarrow> string \<Rightarrow> string list \<Rightarrow> json option \<Rightarrow> string option
     \<Rightarrow> (nat \<Rightarrow> ServiceResult) \<Rightarrow> Call list \<Rightarrow> Response \<times> Call list" where
  "generateAndRespond topic industry formats brandVoice generatedSVG svc calls =
     (case awaitAll (generateAll topic industry formats brandVoice svc (length calls)) of
        Inl e \<Rightarrow> (postFailed e, calls)
      | Inr results \<Rightarrow>
          (let contents = List.map_filter (\<lambda>r. r) results
           in (Success (attachImage generatedSVG contents) brandVoice,
               calls @ map FormatCall formats)))"

text \<open>
  Lines 563--569: the brand voice of the request, with the log of the analysis call. It
  is the analysis of the examples when there are examples, and the \<^verbatim>\<open>brandVoice\<close> of the
  body when that is truthy.
\<close>

definition resolveBrandVoice ::
  "(string \<Rightarrow> Thrown + json) \<Rightarrow> ContentGenerationRequest \<Rightarrow> (nat \<Rightarrow> ServiceResult)
     \<Rightarrow> json option \<times> Call list" where
  "resolveBrandVoice jsonParse req svc =
     (let exs = examplesToUse (reqBrandVoiceExamples req)
      in if exs \<noteq> [] then
           (case analyzeBrandVoice jsonParse svc (Some (JArr exs)) [] of
              (analysis, calls) \<Rightarrow> (Some analysis, calls))
         else if truthyOpt (reqBrandVoice req) then (reqBrandVoice req, [])
         else (None, []))"

text \<open>
  Lines 578--587: the synthesis of the graphic, with the extended log. The visual style
  is extracted outside any \<^verbatim>\<open>try\<close> but that of the handler; the call of the synthesis is
  made when its request is built.
\<close>

definition synthesise ::
  "(json \<Rightarrow> string) \<Rightarrow> string \<Rightarrow> json option \<Rightarrow> json list \<Rightarrow> (nat \<Rightarrow> ServiceResult)
     \<Rightarrow> Call list \<Rightarrow> Thrown + string \<times> Call list" where
  "synthesise toText topic brandVoice exs svc calls =
     (case extractVisualStyle toText brandVoice (Some exs) of
        Inl e \<Rightarrow> Inl e
      | Inr visualStyle \<Rightarrow>
          Inr (generateSVGImage topic brandVoice (Some visualStyle) (Some exs) (svc (length calls)),
               if svgRequestBuilt brandVoice (Some visualStyle) (Some exs) then
                 calls @ [ImageCall topic]
               else calls))"

text \<open>
  Lines 529--605, up to the batch: \<open>Inl\<close> is a response given before any format is
  generated, \<open>Inr\<close> carries what the batch needs. An absent \<^verbatim>\<open>formats\<close> and an empty one
  are treated alike by both tests that read it.
\<close>

definition beforeGeneration ::
  "(string \<Rightarrow> Thrown + json) \<Rightarrow> (json \<Rightarrow> string) \<Rightarrow> ContentGenerationRequest
     \<Rightarrow> (nat \<Rightarrow> ServiceResult)
     \<Rightarrow> (Response \<times> Call list)
        + (string \<times> string \<times> string list \<times> json option \<times> string option \<times> Call list)" where
  "beforeGeneration jsonParse toText req svc =
     (let exs = examplesToUse (reqBrandVoiceExamples req);
          formats = (case reqFormats req of None \<Rightarrow> [] | Some fs \<Rightarrow> fs);
          topic = orElse (reqTopic req) [];
          industry = orElse (reqIndustry req) []
      in if exs \<noteq> [] \<and> formats = [] then
           (case analyzeBrandVoice jsonParse svc (Some (JArr exs)) [] of
              (analysis, calls) \<Rightarrow> Inl (Success [] (Some analysis), calls))
         else if topic = [] \<or> industry = [] \<or> formats = [] then
           Inl (Failure 400
                  ''Missing required fields: topic, industry, and at least one format are required''
                  None, [])
         else
           (case resolveBrandVoice jsonParse req svc of
              (brandVoice, calls1) \<Rightarrow>
                (case detectImageRequest topic (Some exs) of
                   Inl e \<Rightarrow> Inl (postFailed e, calls1)
                 | Inr imageRequest \<Rightarrow>
                     (case (if wantsImage imageRequest then
                              (case synthesise toText topic brandVoice exs svc calls1 of
                                 Inl e \<Rightarrow> Inl e
                               | Inr (svgCode, calls) \<Rightarrow> Inr (Some svgCode, calls))
                            else Inr (None, calls1)) of
                        Inl e \<Rightarrow> Inl (postFailed e, calls1)
                      | Inr (generatedSVG, calls2) \<Rightarrow>
                          if imageOnly imageRequest \<and> orElse generatedSVG [] \<noteq> [] then
                            Inl (Success [imageArtifact (orElse generatedSVG [])] brandVoice, calls2)
                          else Inr (topic, industry, formats, brandVoice, generatedSVG, calls2)))))"

text \<open>
  \<open>POST jsonParse toText apiKey body svc\<close>: the response and the log of the service calls.
  \<open>apiKey\<close> is the environment variable, \<open>body\<close> the outcome of \<^verbatim>\<open>request.json()\<close>.
\<close>

definition POST ::
  "(string \<Rightarrow> Thrown + json) \<Rightarrow> (json \<Rightarrow> string) \<Rightarrow> string option
     \<Rightarrow> Thrown + ContentGenerationRequest \<Rightarrow> (nat \<Rightarrow> ServiceResult) \<Rightarrow> Response \<times> Call list" where
  "POST jsonParse toText apiKey body svc =
     (if orElse apiKey [] = [] then
        (Failure 500
           ''ANTHROPIC_API_KEY is not configured. Please set it in your .env.local file.'' None, [])
      else if \<not> validateApiKey (orElse apiKey []) then
        (Failure 500 ''Invalid ANTHROPIC_API_KEY format. Please check your API key.'' None, [])
      else
        (case body of
           Inl e \<Rightarrow> (postFailed e, [])
         | Inr req \<Rightarrow>
             (case beforeGeneration jsonParse toText req svc of
                Inl response \<Rightarrow> response
              | Inr (topic, industry, formats, brandVoice, generatedSVG, calls) \<Rightarrow>
                  generateAndRespond topic industry formats brandVoice generatedSVG svc calls)))"

subsection \<open>The extraction as the specification words it\<close>

text \<open>
  For comparison with \<open>extractJson\<close> only: section 4.2, step 4 of the specification
  in its own words. \<open>specFencedContents\<close> is the inner contents of the first fenced code
  block (what stands between the first fence and the next one, without the language tag,
  trimmed); \<open>balancedAt\<close> matches a brace-delimited substring whose braces balance, from an
  opening brace to the closing brace that matches it.
\<close>

fun splitAtFence :: "string \<Rightarrow> (string \<times> string) option" where
  "splitAtFence [] = None"
| "splitAtFence (c # cs) =
     (if prefix ''```'' (c # cs) then Some ([], drop 3 (c # cs))
      else map_option (\<lambda>(before, after). (c # before, after)) (splitAtFence cs))"

definition specFencedContents :: "string \<Rightarrow> string option" where
  "specFencedContents reply =
     (case splitAtFence reply of
        None \<Rightarrow> None
      | Some (before, after) \<Rightarrow>
          (case splitAtFence after of
             None \<Rightarrow> None
           | Some (inner, rest) \<Rightarrow>
               Some (trim (if prefix ''json'' inner then drop 4 inner else inner))))"

fun closeAt :: "nat \<Rightarrow> string \<Rightarrow> string option" where
  "closeAt depth [] = None"
| "closeAt depth (c # cs) =
     (if c = CHR ''}'' \<and> depth = 0 then Some [c]
      else map_option (\<lambda>m. c # m)
             (closeAt (if c = CHR ''{'' then Suc depth else if c = CHR ''}'' then depth - 1 else depth) cs))"

definition balancedAt :: "string \<Rightarrow> string option" where
  "balancedAt s =
     (case s of
        [] \<Rightarrow> None
      | c # cs \<Rightarrow> if c = CHR ''{'' then map_option (\<lambda>m. c # m) (closeAt 0 cs) else None)"

definition specExtractJson :: "string \<Rightarrow> string" where
  "specExtractJson reply =
     (case specFencedContents reply of
        Some inner \<Rightarrow> inner
      | None \<Rightarrow> (case firstMatch balancedAt reply of Some b \<Rightarrow> b | None \<Rightarrow> reply))"

section \<open>Properties\<close>

subsection \<open>Strings\<close>

lemma js_includes_iff: "js_includes s t \<longleftrightarrow> (\<exists>ps ss. s = ps @ t @ ss)"
  by (simp add: js_includes_def sublist_def)

subsection \<open>The consistency score\<close>

lemma ratio_bounds:
  fixes m n :: nat
  assumes "m \<le> n" "0 < n"
  shows "0 \<le> (of_nat m / of_nat n :: rat)" "(of_nat m / of_nat n :: rat) \<le> 1"
  using assms by simp_all

lemma stringifies_strings: "list_all stringifies (map JStr terms)"
  by (induction terms) simp_all

lemma brandVoiceContext_typed:
  "brandVoiceContext
     (Some (JObj ([(''tone'', JStr tone), (''style'', JStr style),
                   (''terminology'', JArr (map JStr terms)), (''structure'', JStr structure')]
                  @ extra)))
     = Inr (Some (map JStr terms))"
  by (simp add: brandVoiceContext_def converts_def stringifies_strings)

lemma filterE_strings:
  "filterE (termOccurs contentText) (map JStr terms)
     = Inr (map JStr (filter (\<lambda>term. js_includes contentText (toLowerCase term)) terms))"
  by (induction terms) (simp_all add: termOccurs_def)

text \<open>
  Claim C1. The brand voice is an object of the type \<^verbatim>\<open>BrandVoiceAnalysis\<close>: a tone, a
  style and a structure that are strings, a terminology that is an array of strings, and
  whatever other properties (\<open>extra\<close>). On a reply whose first block is text, the
  artifact carries the reply text and a consistency score: with a terminology that is
  not empty, the score is \<open>min 95 (70 + 25 * matched / total)\<close>, where \<open>matched\<close> counts the
  terminology entries whose lower-cased form occurs as a substring of the lower-cased
  reply, and it lies between 70 and 95; with an empty terminology it is 75; without a
  brand voice it is absent.
\<close>

theorem consistencyScore_computed:
  fixes topic industry fmt t tone style structure' :: string and bs :: "ContentBlock list"
    and terms :: "string list" and extra :: "(string \<times> json) list"
  defines "bv \<equiv> JObj ([(''tone'', JStr tone), (''style'', JStr style),
                         (''terminology'', JArr (map JStr terms)),
                         (''structure'', JStr structure')] @ extra)"
  defines "gen \<equiv> \<lambda>brandVoice. generateContentForFormat topic industry fmt brandVoice
                     (Reply (TextBlock t # bs))"
  defines "matched \<equiv> length (filter (\<lambda>term. sublist (toLowerCase term) (toLowerCase t)) terms)"
  shows "(terms \<noteq> [] \<longrightarrow>
           (\<exists>g s. gen (Some bv) = Inr (Some g) \<and> content g = t \<and> format g = fmt \<and>
              consistencyScore g = Some s \<and>
              s = min 95 (70 + 25 * of_nat matched / of_nat (length terms)) \<and>
              70 \<le> s \<and> s \<le> 95)) \<and>
         (terms = [] \<longrightarrow>
           (\<exists>g. gen (Some bv) = Inr (Some g) \<and> content g = t \<and> format g = fmt \<and>
              consistencyScore g = Some 75)) \<and>
         (\<exists>g. gen None = Inr (Some g) \<and> content g = t \<and> format g = fmt \<and>
              consistencyScore g = None)"
proof (intro conjI impI)
  let ?n = "length terms"
  have built: "brandVoiceContext (Some bv) = Inr (Some (map JStr terms))"
    unfolding bv_def by (rule brandVoiceContext_typed)
  show "\<exists>g. gen None = Inr (Some g) \<and> content g = t \<and> format g = fmt \<and> consistencyScore g = None"
    by (simp add: gen_def generateContentForFormat_def generationOfReply_def artifact_def
        consistencyScoreOf_def brandVoiceContext_def)
  show "\<exists>g. gen (Some bv) = Inr (Some g) \<and> content g = t \<and> format g = fmt \<and>
          consistencyScore g = Some 75"
    if "terms = []"
    using that built
    by (simp add: gen_def generateContentForFormat_def generationOfReply_def artifact_def
        consistencyScoreOf_def)
  show "\<exists>g s. gen (Some bv) = Inr (Some g) \<and> content g = t \<and> format g = fmt \<and>
          consistencyScore g = Some s \<and>
          s = min 95 (70 + 25 * of_nat matched / of_nat (length terms)) \<and>
          70 \<le> s \<and> s \<le> 95"
    if ne: "terms \<noteq> []"
  proof -
    have n: "0 < ?n" using ne by simp
    have le: "matched \<le> ?n" unfolding matched_def by (rule length_filter_le)
    have r0: "0 \<le> (of_nat matched / of_nat ?n :: rat)"
      using ratio_bounds [OF le n] by simp
    have lo: "(70::rat) \<le> min 95 (70 + 25 * of_nat matched / of_nat ?n)"
      using r0 by simp
    have hi: "min 95 (70 + 25 * of_nat matched / of_nat ?n) \<le> (95::rat)"
      by simp
    have score: "consistencyScoreOf (Some (map JStr terms)) t =
        Inr (Some (min 95 (70 + 25 * of_nat matched / of_nat ?n)))"
      using n unfolding consistencyScoreOf_def Let_def matched_def js_includes_def [symmetric]
      by (simp add: filterE_strings mult.commute)
    show ?thesis
      using lo hi built
      unfolding gen_def generateContentForFormat_def generationOfReply_def artifact_def
      by (simp add: score)
  qed
qed

text \<open>
  An instance: two terms, one of which (\<open>AI\<close>, in another case) occurs in the reply, give
  the score 82.5.
\<close>

theorem consistencyScore_computed_witness:
  "\<exists>g. generateContentForFormat ''Launch'' ''saas'' ''blog''
          (Some (JObj [(''tone'', JStr ''bold''), (''style'', JStr ''punchy''),
                       (''terminology'', JArr [JStr ''AI'', JStr ''cloud'']),
                       (''structure'', JStr ''short'')]))
          (Reply [TextBlock ''Our ai platform'']) = Inr (Some g) \<and>
       content g = ''Our ai platform'' \<and> consistencyScore g = Some (165 / 2)"
proof -
  have m: "length (filter (\<lambda>term. sublist (toLowerCase term) (toLowerCase ''Our ai platform''))
             [''AI'', ''cloud'']) = 1"
    by (simp add: toLowerCase_def lowerChar_def sublist_code)
  have ne: "[''AI'', ''cloud''] \<noteq> []"
    by simp
  show ?thesis
    using consistencyScore_computed [where tone = "''bold''" and style = "''punchy''"
        and structure' = "''short''" and extra = "[]" and topic = "''Launch''"
        and industry = "''saas''" and fmt = "''blog''" and t = "''Our ai platform''" and bs = "[]"
        and terms = "[''AI'', ''cloud'']", THEN conjunct1, THEN mp, OF ne]
    unfolding m by auto
qed

subsection \<open>Image intent\<close>

lemma detectImageRequest_imageOnly:
  assumes "detectImageRequest topic exs = Inr r"
  shows "imageOnly r = some (\<lambda>keyword. js_includes (toLowerCase topic) keyword) imageOnlyKeywords"
  using assms
  by (auto simp: detectImageRequest_def Let_def split: sum.splits)

text \<open>
  Claim C5, at a failing input. The topic \<open>no text\<close> with no calibration example is
  classified as image-only (with the reasoning that the user asked for an image only),
  while \<open>wantsImage\<close> is false: \<open>no text\<close>, \<open>without text\<close> and \<open>skip the text\<close> are
  image-only keywords that contain no image keyword.
\<close>

theorem imageOnly_without_wantsImage:
  "detectImageRequest ''no text'' (Some []) =
     Inr \<lparr>wantsImage = False, imageOnly = True,
          reasoning = ''User explicitly requested image only, no text content''\<rparr>"
  by (simp add: detectImageRequest_def Let_def some_def imageKeywords_def imageOnlyKeywords_def
      js_includes_def toLowerCase_def lowerChar_def sublist_code)

text \<open>
  Claim C6. Whenever \<open>detectImageRequest\<close> returns, \<open>imageOnly\<close> is true exactly when the
  lower-cased topic contains one of the image-only keywords, and two example lists give
  the same \<open>imageOnly\<close> for the same topic.
\<close>

theorem imageOnly_depends_on_topic_only:
  "(detectImageRequest topic exs = Inr r \<longrightarrow>
      (imageOnly r \<longleftrightarrow>
         (\<exists>keyword \<in> set imageOnlyKeywords. \<exists>ps ss. toLowerCase topic = ps @ keyword @ ss))) \<and>
   (detectImageRequest topic exs = Inr r \<and> detectImageRequest topic exs' = Inr r' \<longrightarrow>
      imageOnly r = imageOnly r')"
proof (intro conjI impI)
  assume "detectImageRequest topic exs = Inr r"
  then show "imageOnly r \<longleftrightarrow>
      (\<exists>keyword \<in> set imageOnlyKeywords. \<exists>ps ss. toLowerCase topic = ps @ keyword @ ss)"
    by (simp add: detectImageRequest_imageOnly some_def list_ex_iff js_includes_iff)
next
  assume "detectImageRequest topic exs = Inr r \<and> detectImageRequest topic exs' = Inr r'"
  then show "imageOnly r = imageOnly r'"
    using detectImageRequest_imageOnly [of topic exs r]
      detectImageRequest_imageOnly [of topic exs' r']
    by simp
qed

text \<open>
  An instance: a topic with the phrase \<open>just an image\<close>, once without examples and once
  with an example whose text holds image-only phrases of its own.
\<close>

theorem imageOnly_depends_on_topic_only_witness:
  "\<exists>r r'. detectImageRequest ''Just an image of a cat'' (Some []) = Inr r \<and>
     detectImageRequest ''Just an image of a cat''
       (Some [JObj [(''type'', JStr ''text''), (''content'', JStr ''no text, only visual'')]]) = Inr r' \<and>
     imageOnly r \<and> imageOnly r'"
proof -
  let ?topic = "''Just an image of a cat''"
  let ?exs' = "Some [JObj [(''type'', JStr ''text''), (''content'', JStr ''no text, only visual'')]]"
  have lower: "toLowerCase ?topic = [] @ ''just an image'' @ '' of a cat''"
    by (simp add: toLowerCase_def lowerChar_def)
  have r: "detectImageRequest ?topic (Some []) =
      Inr \<lparr>wantsImage = True, imageOnly = True,
           reasoning = ''User explicitly requested image only, no text content''\<rparr>" (is "_ = Inr ?r")
    by (simp add: detectImageRequest_def Let_def some_def imageKeywords_def imageOnlyKeywords_def
        js_includes_def toLowerCase_def lowerChar_def sublist_code)
  have r': "detectImageRequest ?topic ?exs' =
      Inr \<lparr>wantsImage = True, imageOnly = True,
           reasoning = ''User explicitly requested image only, no text content''\<rparr>" (is "_ = Inr ?r'")
    by (simp add: detectImageRequest_def Let_def some_def imageKeywords_def imageOnlyKeywords_def
        js_includes_def toLowerCase_def lowerChar_def sublist_code mentionsImage_def
        textToCheck_def orJ_def truthyOpt_def isImageExample_def)
  note dep = imageOnly_depends_on_topic_only [of ?topic "Some []" ?r ?exs' ?r']
  have "''just an image'' \<in> set imageOnlyKeywords"
    by (simp add: imageOnlyKeywords_def)
  with lower have "\<exists>keyword \<in> set imageOnlyKeywords. \<exists>ps ss. toLowerCase ?topic = ps @ keyword @ ss"
    by blast
  with dep r have only: "imageOnly ?r" by blast
  from dep r r' only have "imageOnly ?r'" by blast
  with r r' only show ?thesis by blast
qed

subsection \<open>The regular expressions\<close>

lemma greedyUpTo_None_iff:
  "greedyUpTo follows closer s = None \<longleftrightarrow> \<not> (\<exists>p r. s = p @ closer @ r \<and> follows r)"
proof (induction s)
  case Nil
  then show ?case by auto
next
  case (Cons c cs)
  have "(\<exists>p r. c # cs = p @ closer @ r \<and> follows r) \<longleftrightarrow>
        (prefix closer (c # cs) \<and> follows (drop (length closer) (c # cs))) \<or>
        (\<exists>p r. cs = p @ closer @ r \<and> follows r)"
  proof
    assume "\<exists>p r. c # cs = p @ closer @ r \<and> follows r"
    then obtain p r where pr: "c # cs = p @ closer @ r" "follows r" by blast
    show "(prefix closer (c # cs) \<and> follows (drop (length closer) (c # cs))) \<or>
        (\<exists>p r. cs = p @ closer @ r \<and> follows r)"
    proof (cases p)
      case Nil
      with pr show ?thesis by (auto simp: prefix_def)
    next
      case (Cons x p')
      with pr show ?thesis by auto
    qed
  next
    assume "(prefix closer (c # cs) \<and> follows (drop (length closer) (c # cs))) \<or>
        (\<exists>p r. cs = p @ closer @ r \<and> follows r)"
    then show "\<exists>p r. c # cs = p @ closer @ r \<and> follows r"
    proof
      assume a: "prefix closer (c # cs) \<and> follows (drop (length closer) (c # cs))"
      then obtain r where r: "c # cs = closer @ r" by (auto simp: prefix_def)
      with a have "follows r" by (metis append_eq_conv_conj)
      with r show ?thesis by (metis append_Nil)
    next
      assume "\<exists>p r. cs = p @ closer @ r \<and> follows r"
      then obtain p r where "cs = p @ closer @ r" "follows r" by blast
      then have "c # cs = (c # p) @ closer @ r" by simp
      with \<open>follows r\<close> show ?thesis by blast
    qed
  qed
  with Cons show ?case by (auto split: option.splits)
qed

lemma firstMatch_None_iff:
  "firstMatch matchAt s = None \<longleftrightarrow> (\<forall>a u. s = a @ u \<longrightarrow> matchAt u = None)"
proof (induction s)
  case Nil
  then show ?case by simp
next
  case (Cons c cs)
  have "(\<forall>a u. c # cs = a @ u \<longrightarrow> matchAt u = None) \<longleftrightarrow>
        matchAt (c # cs) = None \<and> (\<forall>a u. cs = a @ u \<longrightarrow> matchAt u = None)"
    by (auto simp: append_eq_Cons_conv Cons_eq_append_conv)
  with Cons show ?case by (auto split: option.splits)
qed

lemma svg_match_None_iff:
  "firstMatch svgAt s = None \<longleftrightarrow> \<not> (\<exists>a b c. s = a @ ''<svg'' @ b @ ''</svg>'' @ c)"
proof -
  have at: "svgAt u = None \<longleftrightarrow> \<not> (\<exists>b c. u = ''<svg'' @ b @ ''</svg>'' @ c)" for u
  proof (cases "prefix ''<svg'' u")
    case True
    then obtain v where v: "u = ''<svg'' @ v" by (auto simp: prefix_def)
    then show ?thesis
      by (simp add: svgAt_def greedyUpTo_None_iff)
  next
    case False
    then show ?thesis by (auto simp: svgAt_def prefix_def)
  qed
  show ?thesis
    unfolding firstMatch_None_iff at by blast
qed

subsection \<open>The graphic\<close>

text \<open>
  Claim C9. When the \<^verbatim>\<open>try\<close> block of \<open>generateSVGImage\<close> raises (a conversion raises
  while the request is built, the service call raises, or the reply has no block to
  read), the function returns the placeholder: a document that starts with \<open><svg\<close>,
  ends with \<open></svg>\<close> and contains the topic.
\<close>

theorem placeholder_on_exception:
  assumes "\<not> svgRequestBuilt brandVoice visualStyleHint exs \<or> svgOfReply r = Inl e"
  shows "generateSVGImage topic brandVoice visualStyleHint exs r = placeholderSvg topic \<and>
         startsWith (generateSVGImage topic brandVoice visualStyleHint exs r) ''<svg'' \<and>
         suffix ''</svg>'' (generateSVGImage topic brandVoice visualStyleHint exs r) \<and>
         js_includes (generateSVGImage topic brandVoice visualStyleHint exs r) topic"
proof -
  have doc: "generateSVGImage topic brandVoice visualStyleHint exs r = placeholderSvg topic"
    using assms by (auto simp: generateSVGImage_def)
  have "startsWith (placeholderSvg topic) ''<svg''"
    by (simp add: startsWith_def placeholderSvg_def placeholderHead_def)
  moreover have "suffix ''</svg>'' (placeholderSvg topic)"
    unfolding placeholderSvg_def placeholderTail_def suffix_def
    by (rule exI [of _ "placeholderHead @ topic @ ''</text>\<newline>  ''"]) simp
  moreover have "js_includes (placeholderSvg topic) topic"
    by (simp add: js_includes_def placeholderSvg_def)
  ultimately show ?thesis
    using doc by simp
qed

text \<open>
  Instances: the service is overloaded and the call raises; the tone of the brand voice
  cannot be converted to a string and no call is made.
\<close>

theorem placeholder_on_exception_witness:
  "svgOfReply (Raises (ApiError (Some 529) None ''Overloaded'')) =
     Inl (ApiError (Some 529) None ''Overloaded'') \<and>
   generateSVGImage ''Spring sale'' None None None (Raises (ApiError (Some 529) None ''Overloaded''))
     = placeholderSvg ''Spring sale'' \<and>
   js_includes (generateSVGImage ''Spring sale'' None None None
     (Raises (ApiError (Some 529) None ''Overloaded''))) ''Spring sale'' \<and>
   generateSVGImage ''Spring sale'' (Some (JObj [(''tone'', JObj [(''toString'', JStr ''bold'')])]))
     None None (Reply [TextBlock ''<svg></svg>''])
     = placeholderSvg ''Spring sale''"
proof -
  let ?voice = "Some (JObj [(''tone'', JObj [(''toString'', JStr ''bold'')])])"
  have raised: "svgOfReply (Raises (ApiError (Some 529) None ''Overloaded'')) =
     Inl (ApiError (Some 529) None ''Overloaded'')"
    by (simp add: svgOfReply_def)
  note w = placeholder_on_exception [where brandVoice = None and visualStyleHint = None
      and exs = None and topic = "''Spring sale''", OF disjI2 [OF raised]]
  from w have doc: "generateSVGImage ''Spring sale'' None None None
      (Raises (ApiError (Some 529) None ''Overloaded'')) = placeholderSvg ''Spring sale''"
    by (rule conjunct1)
  from w have inc: "js_includes (generateSVGImage ''Spring sale'' None None None
      (Raises (ApiError (Some 529) None ''Overloaded''))) ''Spring sale''"
    by (elim conjE)
  have not_built: "\<not> svgRequestBuilt ?voice None None"
    by (simp add: svgRequestBuilt_def truthyOpt_def voiceProp_def converts_def)
  have other: "generateSVGImage ''Spring sale'' ?voice None None (Reply [TextBlock ''<svg></svg>''])
      = placeholderSvg ''Spring sale''"
    by (rule placeholder_on_exception [where e = "JsError []", OF disjI1 [OF not_built],
          THEN conjunct1])
  from raised doc inc other show ?thesis
    by (intro conjI)
qed

text \<open>
  Claim C10. When the call is made (the request was built) and succeeds with a text block
  whose text, trimmed and with the fence markers removed, neither starts with \<open><svg\<close>
  nor contains a span from \<open><svg\<close> to a later \<open></svg>\<close>, that text is returned as it is,
  not the placeholder.
\<close>

theorem non_svg_reply_returned:
  assumes "svgRequestBuilt brandVoice visualStyleHint exs"
    and "stripped = removeFence ''```'' (removeFence ''```svg'' (trim t))"
    and "\<not> startsWith stripped ''<svg''"
    and "\<not> (\<exists>a b c. stripped = a @ ''<svg'' @ b @ ''</svg>'' @ c)"
  shows "generateSVGImage topic brandVoice visualStyleHint exs (Reply (TextBlock t # bs)) = stripped"
proof -
  have "firstMatch svgAt stripped = None"
    using assms(4) by (simp add: svg_match_None_iff)
  then show ?thesis
    using assms(1,2,3)
    by (simp add: generateSVGImage_def svgOfReply_def extractSvg_def Let_def)
qed

text \<open>
  An instance: the service answers with a fenced sentence; the sentence is returned, and
  it is neither a graphic nor the placeholder.
\<close>

theorem non_svg_reply_returned_witness:
  "generateSVGImage ''Spring sale'' None None None
     (Reply [TextBlock ''```\<newline>I cannot draw that.\<newline>```'']) = ''I cannot draw that.\<newline>'' \<and>
   \<not> startsWith ''I cannot draw that.\<newline>'' ''<svg'' \<and>
   ''I cannot draw that.\<newline>'' \<noteq> placeholderSvg ''Spring sale''"
proof -
  let ?t = "''```\<newline>I cannot draw that.\<newline>```''"
  let ?s = "''I cannot draw that.\<newline>''"
  have stripped: "?s = removeFence ''```'' (removeFence ''```svg'' (trim ?t))"
    by code_simp
  have no_start: "\<not> startsWith ?s ''<svg''"
    by (simp add: startsWith_def)
  have no_span: "\<not> (\<exists>a b c. ?s = a @ ''<svg'' @ b @ ''</svg>'' @ c)"
    by (rule iffD1 [OF svg_match_None_iff]) code_simp
  have other: "?s \<noteq> placeholderSvg ''Spring sale''"
    by (simp add: placeholderSvg_def placeholderHead_def)
  have built: "svgRequestBuilt None None None"
    by (simp add: svgRequestBuilt_def truthyOpt_def)
  show ?thesis
    using non_svg_reply_returned [OF built stripped no_start no_span, of "''Spring sale''" "[]"]
      no_start other
    by simp
qed

subsection \<open>Brand voice analysis\<close>

text \<open>
  Claim C3. \<open>analyzeBrandVoice\<close> always returns a profile. For an absent, non-array or
  empty example list it returns the default profile (tone \<open>professional\<close>, style
  \<open>clear and concise\<close>, an empty terminology, structure \<open>standard\<close>) without calling the
  service. When the service call raises, when the reply has no block to read, or when the
  decoder raises on the extracted text, it returns that default profile; otherwise it
  returns what the decoder returned. No thrown value reaches the caller.
\<close>

theorem analyzeBrandVoice_falls_back:
  fixes jsonParse :: "string \<Rightarrow> Thrown + json"
  defines "fallback \<equiv> JObj [(''tone'', JStr ''professional''), (''style'', JStr ''clear and concise''),
                              (''terminology'', JArr []), (''structure'', JStr ''standard'')]"
  shows
  "((\<forall>x xs. examples \<noteq> Some (JArr (x # xs))) \<longrightarrow>
      analyzeBrandVoice jsonParse svc examples calls = (fallback, calls)) \<and>
   ((\<exists>e. svc (length calls) = Raises e) \<longrightarrow>
      fst (analyzeBrandVoice jsonParse svc examples calls) = fallback) \<and>
   ((\<exists>t bs e. svc (length calls) = Reply (TextBlock t # bs) \<and> jsonParse (extractJson t) = Inl e) \<longrightarrow>
      fst (analyzeBrandVoice jsonParse svc examples calls) = fallback) \<and>
   ((\<exists>e. analysisOfReply jsonParse (svc (length calls)) = Inl e) \<longrightarrow>
      fst (analyzeBrandVoice jsonParse svc examples calls) = fallback) \<and>
   (fst (analyzeBrandVoice jsonParse svc examples calls) = fallback \<or>
    (\<exists>t bs. svc (length calls) = Reply (TextBlock t # bs) \<and>
       jsonParse (extractJson t) = Inr (fst (analyzeBrandVoice jsonParse svc examples calls))))"
proof -
  have fb: "defaultAnalysis = fallback"
    by (simp add: defaultAnalysis_def fallback_def)
  show ?thesis
  proof (intro conjI impI)
    assume "\<forall>x xs. examples \<noteq> Some (JArr (x # xs))"
    then show "analyzeBrandVoice jsonParse svc examples calls = (fallback, calls)"
      unfolding fb [symmetric]
      by (auto simp: analyzeBrandVoice_def split: option.splits json.splits list.splits)
  next
    assume "\<exists>e. svc (length calls) = Raises e"
    then show "fst (analyzeBrandVoice jsonParse svc examples calls) = fallback"
      unfolding fb [symmetric]
      by (auto simp: analyzeBrandVoice_def analysisOfReply_def Let_def
          split: option.splits json.splits list.splits)
  next
    assume "\<exists>t bs e. svc (length calls) = Reply (TextBlock t # bs) \<and> jsonParse (extractJson t) = Inl e"
    then show "fst (analyzeBrandVoice jsonParse svc examples calls) = fallback"
      unfolding fb [symmetric]
      by (auto simp: analyzeBrandVoice_def analysisOfReply_def Let_def
          split: option.splits json.splits list.splits)
  next
    assume "\<exists>e. analysisOfReply jsonParse (svc (length calls)) = Inl e"
    then show "fst (analyzeBrandVoice jsonParse svc examples calls) = fallback"
      unfolding fb [symmetric]
      by (auto simp: analyzeBrandVoice_def Let_def
          split: option.splits json.splits list.splits)
  next
    show "fst (analyzeBrandVoice jsonParse svc examples calls) = fallback \<or>
      (\<exists>t bs. svc (length calls) = Reply (TextBlock t # bs) \<and>
         jsonParse (extractJson t) = Inr (fst (analyzeBrandVoice jsonParse svc examples calls)))"
      unfolding fb [symmetric]
      by (auto simp: analyzeBrandVoice_def analysisOfReply_def Let_def
          split: option.splits json.splits list.splits ServiceResult.splits ContentBlock.splits
            sum.splits)
  qed
qed

text \<open>
  Instances: an empty list is answered with the default profile without a call; a service
  that is down and a reply that the decoder rejects give the default profile after one
  call.
\<close>

theorem analyzeBrandVoice_falls_back_witness:
  "analyzeBrandVoice (\<lambda>s. Inl (JsError ''Unexpected token'')) (\<lambda>n. Reply [TextBlock ''not json''])
     (Some (JArr [])) []
     = (JObj [(''tone'', JStr ''professional''), (''style'', JStr ''clear and concise''),
              (''terminology'', JArr []), (''structure'', JStr ''standard'')], []) \<and>
   analyzeBrandVoice (\<lambda>s. Inl (JsError ''Unexpected token'')) (\<lambda>n. Raises (JsError ''Connection error.''))
     (Some (JArr [JStr ''We write boldly''])) []
     = (JObj [(''tone'', JStr ''professional''), (''style'', JStr ''clear and concise''),
              (''terminology'', JArr []), (''structure'', JStr ''standard'')],
        [AnalysisCall [textExample (JStr ''We write boldly'')]]) \<and>
   fst (analyzeBrandVoice (\<lambda>s. Inl (JsError ''Unexpected token'')) (\<lambda>n. Reply [TextBlock ''not json''])
     (Some (JArr [JStr ''We write boldly''])) [])
     = JObj [(''tone'', JStr ''professional''), (''style'', JStr ''clear and concise''),
             (''terminology'', JArr []), (''structure'', JStr ''standard'')]"
proof -
  let ?parse = "\<lambda>s :: string. Inl (JsError ''Unexpected token'') :: Thrown + json"
  let ?svc = "\<lambda>n :: nat. Reply [TextBlock ''not json'']"
  let ?down = "\<lambda>n :: nat. Raises (JsError ''Connection error.'')"
  let ?exs = "Some (JArr [JStr ''We write boldly''])"
  let ?fallback = "JObj [(''tone'', JStr ''professional''), (''style'', JStr ''clear and concise''),
             (''terminology'', JArr []), (''structure'', JStr ''standard'')]"
  have a: "analyzeBrandVoice ?parse ?svc (Some (JArr [])) [] = (?fallback, [])"
    using analyzeBrandVoice_falls_back [of "Some (JArr [])" ?parse ?svc "[]"] by simp
  have "fst (analyzeBrandVoice ?parse ?down ?exs []) = ?fallback"
    using analyzeBrandVoice_falls_back [of ?exs ?parse ?down "[]"] by simp
  moreover have "snd (analyzeBrandVoice ?parse ?down ?exs [])
      = [AnalysisCall [textExample (JStr ''We write boldly'')]]"
    by (simp add: analyzeBrandVoice_def Let_def processedExamples_def isString_def textExample_def
        orJ_def truthyOpt_def split: sum.splits option.splits)
  ultimately have b: "analyzeBrandVoice ?parse ?down ?exs []
      = (?fallback, [AnalysisCall [textExample (JStr ''We write boldly'')]])"
    by (simp add: prod_eq_iff)
  have c: "fst (analyzeBrandVoice ?parse ?svc ?exs []) = ?fallback"
    using analyzeBrandVoice_falls_back [of ?exs ?parse ?svc "[]"] by simp
  from a b c show ?thesis by (intro conjI)
qed

text \<open>
  Claim C7, at a failing input. A tagged example with an empty content and a caption
  (\<^verbatim>\<open>textContent\<close>) is dropped by the normalization of \<open>analyzeBrandVoice\<close>, which tests
  the property \<^verbatim>\<open>text\<close> where every other reader of an example tests \<^verbatim>\<open>textContent\<close>;
  the filter of \<open>generateSVGImage\<close> keeps the same example.
\<close>

theorem captioned_example_dropped:
  "processedExamples (examplesToUse (Some (JArr
      [JObj [(''type'', JStr ''mixed''), (''content'', JStr []),
             (''textContent'', JStr ''Bold and friendly'')]]))) = [] \<and>
   svgTextExamples (examplesToUse (Some (JArr
      [JObj [(''type'', JStr ''mixed''), (''content'', JStr []),
             (''textContent'', JStr ''Bold and friendly'')]])))
     = [JObj [(''type'', JStr ''mixed''), (''content'', JStr []),
              (''textContent'', JStr ''Bold and friendly'')]]"
  by (simp add: processedExamples_def examplesToUse_def svgTextExamples_def isString_def
      orJ_def truthyOpt_def)

subsection \<open>The handler\<close>

lemma validateApiKey_nonempty: "validateApiKey key \<Longrightarrow> orElse (Some key) [] = key \<and> key \<noteq> []"
  by (auto simp: validateApiKey_def orElse_def)

lemma analyzeBrandVoice_calls:
  "exs \<noteq> [] \<Longrightarrow>
     snd (analyzeBrandVoice jsonParse svc (Some (JArr exs)) calls)
       = calls @ [AnalysisCall (processedExamples exs)]"
  by (cases exs) (auto simp: analyzeBrandVoice_def Let_def split: sum.splits option.splits)

lemma analyzeBrandVoice_agree:
  "svc' (length calls) = svc (length calls) \<Longrightarrow>
     analyzeBrandVoice jsonParse svc' examples calls = analyzeBrandVoice jsonParse svc examples calls"
  by (simp add: analyzeBrandVoice_def Let_def split: option.splits json.splits list.splits)

lemma imageOnly_topic_nonempty:
  assumes "detectImageRequest topic exs = Inr r" "imageOnly r"
  shows "topic \<noteq> []"
proof
  assume "topic = []"
  with assms(1) have "imageOnly r = some (\<lambda>keyword. js_includes [] keyword) imageOnlyKeywords"
    using detectImageRequest_imageOnly [of topic exs r] by (simp add: toLowerCase_def)
  also have "\<dots> = False"
    by (simp add: some_def imageOnlyKeywords_def js_includes_def)
  finally show False using assms(2) by simp
qed

lemma generateSVGImage_nonempty:
  "svgOfReply r \<noteq> Inr (Some []) \<Longrightarrow> generateSVGImage topic brandVoice hint exs r \<noteq> []"
  by (auto simp: generateSVGImage_def placeholderSvg_def placeholderHead_def
      split: sum.splits option.splits)

lemma resolveBrandVoice_calls:
  "snd (resolveBrandVoice jsonParse req svc)
     = (if examplesToUse (reqBrandVoiceExamples req) = [] then []
        else [AnalysisCall (processedExamples (examplesToUse (reqBrandVoiceExamples req)))])"
  using analyzeBrandVoice_calls [of "examplesToUse (reqBrandVoiceExamples req)" jsonParse svc "[]"]
  by (simp add: resolveBrandVoice_def Let_def split_beta)

text \<open>
  Claim C8. For a request that passes the configuration and validation checks, is
  classified as image-only, and whose graphic was synthesised (\<open>wantsImage\<close> holds, the
  visual style is extracted, and the document is not empty), the response holds exactly
  one artifact: the image artifact with the graphic as a data URI. No format generation
  call is in the log.
\<close>

theorem image_only_response:
  fixes req :: ContentGenerationRequest and jsonParse :: "string \<Rightarrow> Thrown + json"
    and svc :: "nat \<Rightarrow> ServiceResult"
  defines "exs \<equiv> examplesToUse (reqBrandVoiceExamples req)"
  defines "n \<equiv> (if exs = [] then 0 else 1)"
  defines "brandVoice \<equiv> fst (resolveBrandVoice jsonParse req svc)"
  assumes key: "validateApiKey key"
    and topic: "reqTopic req = Some topic"
    and industry: "reqIndustry req = Some industry" "industry \<noteq> []"
    and formats: "reqFormats req = Some formats" "formats \<noteq> []"
    and detect: "detectImageRequest topic (Some exs) = Inr imageRequest"
    and only: "imageOnly imageRequest"
    and wants: "wantsImage imageRequest"
    and styled: "extractVisualStyle toText brandVoice (Some exs) = Inr visualStyle"
    and synthesised: "svgOfReply (svc n) \<noteq> Inr (Some [])"
  shows "\<exists>svg calls.
           POST jsonParse toText (Some key) (Inr req) svc =
             (Success [\<lparr>format = ''image'', content = ''SVG image generated successfully'',
                        consistencyScore = None, title = Some ''Generated Image'',
                        imageUrl = Some (''data:image/svg+xml,''
                                          @ replaceQuotes (encodeURIComponent svg))\<rparr>]
                brandVoice, calls) \<and>
           svg = generateSVGImage topic brandVoice (Some visualStyle) (Some exs) (svc n) \<and>
           svg \<noteq> [] \<and>
           (\<forall>fmt. FormatCall fmt \<notin> set calls)"
proof -
  have t: "topic \<noteq> []"
    using detect only by (rule imageOnly_topic_nonempty)
  note k = validateApiKey_nonempty [OF key]
  define calls1 where "calls1 = snd (resolveBrandVoice jsonParse req svc)"
  have resolved: "resolveBrandVoice jsonParse req svc = (brandVoice, calls1)"
    by (simp add: brandVoice_def calls1_def)
  have c1: "calls1 = (if exs = [] then [] else [AnalysisCall (processedExamples exs)])"
    unfolding calls1_def exs_def by (rule resolveBrandVoice_calls)
  have len: "length calls1 = n"
    by (simp add: c1 n_def)
  let ?svg = "generateSVGImage topic brandVoice (Some visualStyle) (Some exs) (svc n)"
  let ?calls = "if svgRequestBuilt brandVoice (Some visualStyle) (Some exs)
                then calls1 @ [ImageCall topic] else calls1"
  have ne: "?svg \<noteq> []"
    using synthesised by (simp add: generateSVGImage_nonempty)
  have syn: "synthesise toText topic brandVoice exs svc calls1 = Inr (?svg, ?calls)"
    using styled len by (simp add: synthesise_def)
  have before: "beforeGeneration jsonParse toText req svc =
      Inl (Success [imageArtifact ?svg] brandVoice, ?calls)"
    using t topic industry formats detect only wants ne resolved syn
    unfolding beforeGeneration_def exs_def [symmetric]
    by (simp add: Let_def orElse_def)
  have none: "\<forall>fmt. FormatCall fmt \<notin> set ?calls"
    by (simp add: c1)
  have "POST jsonParse toText (Some key) (Inr req) svc =
      (Success [\<lparr>format = ''image'', content = ''SVG image generated successfully'',
                 consistencyScore = None, title = Some ''Generated Image'',
                 imageUrl = Some (''data:image/svg+xml,''
                                   @ replaceQuotes (encodeURIComponent ?svg))\<rparr>]
         brandVoice, ?calls)"
    using k key before
    by (simp add: POST_def imageArtifact_def dataUri_def)
  with ne none show ?thesis
    by blast
qed

text \<open>
  An instance: the topic asks for just an image, the service replies with a graphic, and
  the single artifact carries it percent-encoded.
\<close>

theorem image_only_response_witness:
  "\<exists>brandVoice calls.
     POST (\<lambda>s. Inl (JsError ''Unexpected token'')) (\<lambda>v. ''[object Object]'')
       (Some ''sk-ant-0123456789abcdef'')
       (Inr \<lparr>reqTopic = Some ''Just an image of a cat'', reqIndustry = Some ''pets'',
             reqFormats = Some [''blog'', ''twitter''], reqBrandVoiceExamples = None,
             reqBrandVoice = None\<rparr>)
       (\<lambda>n. Reply [TextBlock ''<svg></svg>''])
     = (Success [\<lparr>format = ''image'', content = ''SVG image generated successfully'',
                  consistencyScore = None, title = Some ''Generated Image'',
                  imageUrl = Some ''data:image/svg+xml,%3Csvg%3E%3C%2Fsvg%3E''\<rparr>]
          brandVoice, calls) \<and>
     (\<forall>fmt. FormatCall fmt \<notin> set calls)"
proof -
  let ?parse = "\<lambda>s :: string. Inl (JsError ''Unexpected token'') :: Thrown + json"
  let ?text = "\<lambda>v :: json. ''[object Object]''"
  let ?key = "''sk-ant-0123456789abcdef''"
  let ?topic = "''Just an image of a cat''"
  let ?req = "\<lparr>reqTopic = Some ?topic, reqIndustry = Some ''pets'',
             reqFormats = Some [''blog'', ''twitter''], reqBrandVoiceExamples = None,
             reqBrandVoice = None\<rparr>"
  let ?svc = "\<lambda>n :: nat. Reply [TextBlock ''<svg></svg>'']"
  let ?r = "\<lparr>wantsImage = True, imageOnly = True,
           reasoning = ''User explicitly requested image only, no text content''\<rparr>"
  have key: "validateApiKey ?key"
    by (simp add: validateApiKey_def startsWith_def)
  have exs: "examplesToUse (reqBrandVoiceExamples ?req) = []"
    by (simp add: examplesToUse_def)
  have voice: "fst (resolveBrandVoice ?parse ?req ?svc) = None"
    by (simp add: resolveBrandVoice_def Let_def examplesToUse_def truthyOpt_def)
  have detect: "detectImageRequest ?topic (Some (examplesToUse (reqBrandVoiceExamples ?req))) = Inr ?r"
    unfolding exs
    by (simp add: detectImageRequest_def Let_def some_def imageKeywords_def imageOnlyKeywords_def
        js_includes_def toLowerCase_def lowerChar_def sublist_code)
  have styled: "extractVisualStyle ?text (fst (resolveBrandVoice ?parse ?req ?svc))
      (Some (examplesToUse (reqBrandVoiceExamples ?req))) = Inr (JStr [])"
    unfolding voice exs
    by (simp add: extractVisualStyle_def Let_def voiceProp_def some_def)
  have svg: "extractSvg ''<svg></svg>'' = ''<svg></svg>''"
    by code_simp
  have reply: "svgOfReply (?svc n) = Inr (Some ''<svg></svg>'')" for n
    by (simp add: svgOfReply_def svg)
  have built: "svgRequestBuilt None (Some (JStr [])) (Some [])"
    by (simp add: svgRequestBuilt_def truthyOpt_def svgTextExamples_def)
  have enc: "replaceQuotes (encodeURIComponent ''<svg></svg>'') = ''%3Csvg%3E%3C%2Fsvg%3E''"
    by code_simp
  have "\<exists>svg calls.
           POST ?parse ?text (Some ?key) (Inr ?req) ?svc =
             (Success [\<lparr>format = ''image'', content = ''SVG image generated successfully'',
                        consistencyScore = None, title = Some ''Generated Image'',
                        imageUrl = Some (''data:image/svg+xml,''
                                          @ replaceQuotes (encodeURIComponent svg))\<rparr>]
                (fst (resolveBrandVoice ?parse ?req ?svc)), calls) \<and>
           svg = generateSVGImage ?topic (fst (resolveBrandVoice ?parse ?req ?svc))
                   (Some (JStr []))
                   (Some (examplesToUse (reqBrandVoiceExamples ?req)))
                   (?svc (if examplesToUse (reqBrandVoiceExamples ?req) = [] then 0 else 1)) \<and>
           svg \<noteq> [] \<and>
           (\<forall>fmt. FormatCall fmt \<notin> set calls)"
    by (rule image_only_response [where industry = "''pets''" and formats = "[''blog'', ''twitter'']"
          and imageRequest = ?r, OF key _ _ _ _ _ detect _ _ styled])
      (simp_all add: reply)
  then obtain svg calls where
    post: "POST ?parse ?text (Some ?key) (Inr ?req) ?svc =
             (Success [\<lparr>format = ''image'', content = ''SVG image generated successfully'',
                        consistencyScore = None, title = Some ''Generated Image'',
                        imageUrl = Some (''data:image/svg+xml,''
                                          @ replaceQuotes (encodeURIComponent svg))\<rparr>]
                (fst (resolveBrandVoice ?parse ?req ?svc)), calls)"
    and doc: "svg = generateSVGImage ?topic (fst (resolveBrandVoice ?parse ?req ?svc))
                   (Some (JStr []))
                   (Some (examplesToUse (reqBrandVoiceExamples ?req)))
                   (?svc (if examplesToUse (reqBrandVoiceExamples ?req) = [] then 0 else 1))"
    and none: "\<forall>fmt. FormatCall fmt \<notin> set calls"
    by blast
  have "svg = ''<svg></svg>''"
    unfolding doc voice exs by (simp add: generateSVGImage_def reply built)
  with post enc have "POST ?parse ?text (Some ?key) (Inr ?req) ?svc =
             (Success [\<lparr>format = ''image'', content = ''SVG image generated successfully'',
                        consistencyScore = None, title = Some ''Generated Image'',
                        imageUrl = Some ''data:image/svg+xml,%3Csvg%3E%3C%2Fsvg%3E''\<rparr>]
                (fst (resolveBrandVoice ?parse ?req ?svc)), calls)"
    by simp
  with none show ?thesis by blast
qed

subsection \<open>The batch\<close>

lemma generationOfReply_Some:
  "\<exists>g. generationOfReply fmt terminology r = Some g \<and> format g = fmt"
  by (auto simp: generationOfReply_def generationFailed_def artifact_def
      split: ServiceResult.splits list.splits ContentBlock.splits Thrown.splits sum.splits)

lemma generationOfReply_Raises:
  "generationOfReply fmt terminology (Raises e) = Some (generationFailed fmt e)"
  by (simp add: generationOfReply_def)

lemma generationFailed_score: "consistencyScore (generationFailed fmt e) = None"
  by (simp add: generationFailed_def artifact_def split: Thrown.splits)

lemma generationFailed_content:
  "content (generationFailed fmt e) =
     (case e of
        ApiError st b m \<Rightarrow>
          if st = Some 401 \<or> bodyType b = Some ''authentication_error'' then
            crossMark @ '' Authentication Error: '' @ orElse (bodyMessage b) ''Invalid API key''
              @ ''. Please check your ANTHROPIC_API_KEY in Vercel environment variables.''
          else if st = Some 400 \<or> bodyType b = Some ''invalid_request_error'' then
            crossMark @ '' Request Error: '' @ orElse (bodyMessage b) ''Invalid request''
              @ ''. Please try again with different parameters.''
          else
            crossMark @ '' Error generating '' @ fmt @ '' content: '' @ m
              @ ''. Please check your API key and try again.''
      | JsError m \<Rightarrow>
          crossMark @ '' Error generating '' @ fmt @ '' content: '' @ m
            @ ''. Please check your API key and try again.'')"
  by (simp add: generationFailed_def artifact_def split: Thrown.splits)

lemma awaitAll_fulfilled: "awaitAll (map (\<lambda>x. Inr (f x)) xs) = Inr (map f xs)"
  by (induction xs) simp_all

lemma map_filter_all_Some:
  "\<forall>x \<in> set xs. f x \<noteq> None \<Longrightarrow> List.map_filter (\<lambda>r. r) (map f xs) = map (\<lambda>x. the (f x)) xs"
  by (induction xs) (auto simp: List.map_filter_simps)

lemma generateAll_shaped:
  assumes "brandVoiceContext brandVoice = Inr terminology"
  shows "awaitAll (generateAll topic industry formats brandVoice svc n)
     = Inr (map (\<lambda>(i, fmt). generationOfReply fmt terminology (svc i)) (enumerate n formats))"
proof -
  have "generateAll topic industry formats brandVoice svc n
      = map (\<lambda>x. Inr ((\<lambda>(i, fmt). generationOfReply fmt terminology (svc i)) x)) (enumerate n formats)"
    using assms by (simp add: generateAll_def generateContentForFormat_def split_def)
  then show ?thesis
    by (simp only: awaitAll_fulfilled)
qed

lemma generateAll_ill_shaped:
  assumes "brandVoiceContext brandVoice = Inl e" "formats \<noteq> []"
  shows "awaitAll (generateAll topic industry formats brandVoice svc n) = Inl e"
  using assms
  by (cases formats) (simp_all add: generateAll_def generateContentForFormat_def)

lemma map_filter_generated:
  "List.map_filter (\<lambda>r. r)
       (map (\<lambda>(i, fmt). generationOfReply fmt terminology (svc i)) (enumerate n formats))
     = map (\<lambda>(i, fmt). the (generationOfReply fmt terminology (svc i))) (enumerate n formats)"
proof -
  have "\<forall>x \<in> set (enumerate n formats).
      (\<lambda>(i, fmt). generationOfReply fmt terminology (svc i)) x \<noteq> None"
    using generationOfReply_Some by (auto simp: split_def) (metis option.distinct(1))
  from map_filter_all_Some [OF this] show ?thesis
    by (simp add: split_def)
qed

lemma resolveBrandVoice_agree:
  assumes "examplesToUse (reqBrandVoiceExamples req) \<noteq> [] \<longrightarrow> svc' 0 = svc 0"
  shows "resolveBrandVoice jsonParse req svc' = resolveBrandVoice jsonParse req svc"
proof (cases "examplesToUse (reqBrandVoiceExamples req) = []")
  case True
  then show ?thesis by (simp add: resolveBrandVoice_def)
next
  case False
  with assms have "svc' (length ([] :: Call list)) = svc (length ([] :: Call list))" by simp
  then have "analyzeBrandVoice jsonParse svc' examples [] = analyzeBrandVoice jsonParse svc examples []"
    for examples
    by (rule analyzeBrandVoice_agree)
  with False show ?thesis
    by (simp add: resolveBrandVoice_def Let_def)
qed

lemma synthesise_agree:
  assumes "svc' (length calls) = svc (length calls)"
  shows "synthesise toText topic brandVoice exs svc' calls
           = synthesise toText topic brandVoice exs svc calls"
  using assms by (simp add: synthesise_def split: sum.splits)

lemma synthesise_calls:
  assumes "synthesise toText topic brandVoice exs svc calls = Inr (svgCode, calls')"
  shows "calls' = calls \<and> synthesise toText topic brandVoice exs svc' calls = Inr (svgCode, calls')
         \<or> calls' = calls @ [ImageCall topic]"
  using assms
  by (auto simp: synthesise_def generateSVGImage_def split: sum.splits if_splits)

lemma beforeGeneration_agree:
  assumes reach: "beforeGeneration jsonParse toText req svc = Inr (topic, industry, formats, brandVoice, svg, calls)"
    and agree: "\<forall>k<length calls. svc' k = svc k"
  shows "beforeGeneration jsonParse toText req svc' = Inr (topic, industry, formats, brandVoice, svg, calls)"
proof -
  let ?exs = "examplesToUse (reqBrandVoiceExamples req)"
  let ?t = "orElse (reqTopic req) []"
  obtain bv calls1 where r: "resolveBrandVoice jsonParse req svc = (bv, calls1)"
    by (cases "resolveBrandVoice jsonParse req svc")
  have c1: "calls1 = (if ?exs = [] then [] else [AnalysisCall (processedExamples ?exs)])"
    using resolveBrandVoice_calls [of jsonParse req svc] r by simp
  from reach r obtain ir where d: "detectImageRequest ?t (Some ?exs) = Inr ir"
    unfolding beforeGeneration_def Let_def
    by (auto split: if_splits sum.splits prod.splits)
  have grows: "calls = calls1 \<or> (\<exists>c. calls = calls1 @ [c])"
    using reach r d synthesise_calls [of toText ?t bv ?exs svc calls1 _ _ svc']
    unfolding beforeGeneration_def Let_def
    by (auto split: if_splits sum.splits prod.splits)
  have "?exs \<noteq> [] \<longrightarrow> svc' 0 = svc 0"
    using grows agree c1 by auto
  then have r': "resolveBrandVoice jsonParse req svc' = (bv, calls1)"
    using resolveBrandVoice_agree [of req svc' svc jsonParse] r by simp
  show ?thesis
  proof (cases "wantsImage ir")
    case False
    with reach r r' d show ?thesis
      unfolding beforeGeneration_def Let_def
      by (auto split: if_splits sum.splits prod.splits)
  next
    case True
    with reach r d obtain svgCode calls2 where
      s: "synthesise toText ?t bv ?exs svc calls1 = Inr (svgCode, calls2)"
      unfolding beforeGeneration_def Let_def
      by (auto split: if_splits sum.splits prod.splits)
    from True reach r d s have c2: "calls = calls2"
      unfolding beforeGeneration_def Let_def
      by (auto split: if_splits sum.splits prod.splits)
    have s': "synthesise toText ?t bv ?exs svc' calls1 = Inr (svgCode, calls2)"
    proof -
      from synthesise_calls [OF s, of svc']
      show ?thesis
      proof
        assume "calls2 = calls1 \<and> synthesise toText ?t bv ?exs svc' calls1 = Inr (svgCode, calls2)"
        then show ?thesis by simp
      next
        assume "calls2 = calls1 @ [ImageCall ?t]"
        with c2 agree have "svc' (length calls1) = svc (length calls1)" by simp
        then have "synthesise toText ?t bv ?exs svc' calls1 = synthesise toText ?t bv ?exs svc calls1"
          by (rule synthesise_agree)
        with s show ?thesis by simp
      qed
    qed
    from True reach r r' d s s' show ?thesis
      unfolding beforeGeneration_def Let_def
      by (auto split: if_splits sum.splits prod.splits)
  qed
qed

lemma attachImage_length: "length (attachImage svg cs) = length cs"
  by (simp add: attachImage_def split: list.splits)

lemma attachImage_nth:
  "i < length cs \<Longrightarrow>
     format (attachImage svg cs ! i) = format (cs ! i) \<and>
     content (attachImage svg cs ! i) = content (cs ! i) \<and>
     consistencyScore (attachImage svg cs ! i) = consistencyScore (cs ! i)"
  by (cases cs; cases i) (simp_all add: attachImage_def)

lemma attachImage_cong_nth:
  assumes "length cs' = length cs" "i < length cs" "cs' ! i = cs ! i"
  shows "attachImage svg cs' ! i = attachImage svg cs ! i"
  using assms by (cases cs; cases cs'; cases i) (simp_all add: attachImage_def)

text \<open>
  The batch on a brand voice that is absent (or falsy) or carries a terminology array,
  that is, whenever line 398 does not raise. When a request reaches the batch
  (\<open>beforeGeneration\<close> yields its inputs), one call per requested format is issued, in the
  order of the formats and whatever the outcomes of the others, and the response holds
  one artifact per format, in that order. The artifact of a format whose call raises has
  no consistency score and the message of the \<^verbatim>\<open>catch\<close> block as its body: the
  authentication message, the invalid-request message, or the general one with the
  format and the message of the error. Changing the outcome of the call of one format
  changes no artifact of another format.
\<close>

theorem format_failures_isolated:
  assumes key: "validateApiKey key"
    and reach: "beforeGeneration jsonParse toText req svc
                  = Inr (topic, industry, formats, brandVoice, svg, calls)"
    and shaped: "brandVoiceContext brandVoice = Inr terminology"
  shows "\<exists>contents.
      POST jsonParse toText (Some key) (Inr req) svc
        = (Success contents brandVoice, calls @ map FormatCall formats) \<and>
      length contents = length formats \<and>
      (\<forall>i<length formats. format (contents ! i) = formats ! i) \<and>
      (\<forall>i<length formats. \<forall>e. svc (length calls + i) = Raises e \<longrightarrow>
          consistencyScore (contents ! i) = None \<and>
          content (contents ! i) =
            (case e of
               ApiError st b m \<Rightarrow>
                 if st = Some 401 \<or> bodyType b = Some ''authentication_error'' then
                   crossMark @ '' Authentication Error: ''
                     @ orElse (bodyMessage b) ''Invalid API key''
                     @ ''. Please check your ANTHROPIC_API_KEY in Vercel environment variables.''
                 else if st = Some 400 \<or> bodyType b = Some ''invalid_request_error'' then
                   crossMark @ '' Request Error: '' @ orElse (bodyMessage b) ''Invalid request''
                     @ ''. Please try again with different parameters.''
                 else
                   crossMark @ '' Error generating '' @ formats ! i @ '' content: '' @ m
                     @ ''. Please check your API key and try again.''
             | JsError m \<Rightarrow>
                 crossMark @ '' Error generating '' @ formats ! i @ '' content: '' @ m
                   @ ''. Please check your API key and try again.'')) \<and>
      (\<forall>j svc'. (\<forall>k. k \<noteq> length calls + j \<longrightarrow> svc' k = svc k) \<longrightarrow>
          (\<exists>contents'.
             POST jsonParse toText (Some key) (Inr req) svc'
               = (Success contents' brandVoice, calls @ map FormatCall formats) \<and>
             length contents' = length formats \<and>
             (\<forall>i<length formats. i \<noteq> j \<longrightarrow> contents' ! i = contents ! i))) \<and>
      (\<forall>x y. crossMark @ '' Authentication Error: '' @ x \<noteq> crossMark @ '' Request Error: '' @ y)"
proof -
  define artifacts where "artifacts s =
      map (\<lambda>(i, fmt). the (generationOfReply fmt terminology (s i)))
        (enumerate (length calls) formats)" for s :: "nat \<Rightarrow> ServiceResult"
  have len: "length (artifacts s) = length formats" for s
    by (simp add: artifacts_def)
  have nth: "artifacts s ! i
      = the (generationOfReply (formats ! i) terminology (s (length calls + i)))"
    if "i < length formats" for s i
    using that by (simp add: artifacts_def nth_enumerate_eq)
  note k = validateApiKey_nonempty [OF key]
  have post: "POST jsonParse toText (Some key) (Inr req) s
      = (Success (attachImage svg (artifacts s)) brandVoice, calls @ map FormatCall formats)"
    if "beforeGeneration jsonParse toText req s
          = Inr (topic, industry, formats, brandVoice, svg, calls)"
    for s
    using that k key
    by (simp add: POST_def generateAndRespond_def Let_def generateAll_shaped [OF shaped]
        map_filter_generated artifacts_def)
  let ?contents = "attachImage svg (artifacts svc)"
  have fmt: "format (?contents ! i) = formats ! i" if "i < length formats" for i
  proof -
    obtain g where "generationOfReply (formats ! i) terminology (svc (length calls + i)) = Some g"
      "format g = formats ! i"
      using generationOfReply_Some by blast
    then show ?thesis
      using that attachImage_nth [of i "artifacts svc" svg] by (simp add: len nth)
  qed
  have failed: "consistencyScore (?contents ! i) = None \<and>
      content (?contents ! i) =
        (case e of
           ApiError st b m \<Rightarrow>
             if st = Some 401 \<or> bodyType b = Some ''authentication_error'' then
               crossMark @ '' Authentication Error: ''
                 @ orElse (bodyMessage b) ''Invalid API key''
                 @ ''. Please check your ANTHROPIC_API_KEY in Vercel environment variables.''
             else if st = Some 400 \<or> bodyType b = Some ''invalid_request_error'' then
               crossMark @ '' Request Error: '' @ orElse (bodyMessage b) ''Invalid request''
                 @ ''. Please try again with different parameters.''
             else
               crossMark @ '' Error generating '' @ formats ! i @ '' content: '' @ m
                 @ ''. Please check your API key and try again.''
         | JsError m \<Rightarrow>
             crossMark @ '' Error generating '' @ formats ! i @ '' content: '' @ m
               @ ''. Please check your API key and try again.'')"
    if i: "i < length formats" and raised: "svc (length calls + i) = Raises e" for i e
  proof -
    have at: "?contents ! i = attachImage svg (artifacts svc) ! i" by simp
    have a: "artifacts svc ! i = generationFailed (formats ! i) e"
      using i raised by (simp add: nth generationOfReply_Raises)
    have "consistencyScore (?contents ! i) = None"
      using attachImage_nth [of i "artifacts svc" svg] i
      by (simp add: len a generationFailed_score)
    moreover have "content (?contents ! i) = content (generationFailed (formats ! i) e)"
      using attachImage_nth [of i "artifacts svc" svg] i
      by (simp add: len a)
    ultimately show ?thesis
      by (simp only: generationFailed_content)
  qed
  have others: "\<exists>contents'.
      POST jsonParse toText (Some key) (Inr req) svc'
        = (Success contents' brandVoice, calls @ map FormatCall formats) \<and>
      length contents' = length formats \<and>
      (\<forall>i<length formats. i \<noteq> j \<longrightarrow> contents' ! i = ?contents ! i)"
    if agree: "\<forall>k. k \<noteq> length calls + j \<longrightarrow> svc' k = svc k" for j svc'
  proof -
    have "\<forall>k<length calls. svc' k = svc k"
      using agree by simp
    then have reach': "beforeGeneration jsonParse toText req svc'
        = Inr (topic, industry, formats, brandVoice, svg, calls)"
      by (rule beforeGeneration_agree [OF reach])
    have same: "attachImage svg (artifacts svc') ! i = ?contents ! i"
      if "i < length formats" "i \<noteq> j" for i
    proof (rule attachImage_cong_nth)
      show "length (artifacts svc') = length (artifacts svc)" by (simp add: len)
      show "i < length (artifacts svc)" using that by (simp add: len)
      show "artifacts svc' ! i = artifacts svc ! i"
        using that agree by (simp add: nth)
    qed
    show ?thesis
      using post [OF reach'] same by (simp add: attachImage_length len)
  qed
  have distinct: "crossMark @ '' Authentication Error: '' @ x \<noteq> crossMark @ '' Request Error: '' @ y"
    for x y
    by (simp add: crossMark_def)
  have c1: "POST jsonParse toText (Some key) (Inr req) svc
      = (Success ?contents brandVoice, calls @ map FormatCall formats)"
    by (rule post [OF reach])
  have c2: "length ?contents = length formats"
    by (simp add: attachImage_length len)
  have c3: "\<forall>i<length formats. format (?contents ! i) = formats ! i"
    by (intro allI impI fmt)
  have c4: "\<forall>i<length formats. \<forall>e. svc (length calls + i) = Raises e \<longrightarrow>
          consistencyScore (?contents ! i) = None \<and>
          content (?contents ! i) =
            (case e of
               ApiError st b m \<Rightarrow>
                 if st = Some 401 \<or> bodyType b = Some ''authentication_error'' then
                   crossMark @ '' Authentication Error: ''
                     @ orElse (bodyMessage b) ''Invalid API key''
                     @ ''. Please check your ANTHROPIC_API_KEY in Vercel environment variables.''
                 else if st = Some 400 \<or> bodyType b = Some ''invalid_request_error'' then
                   crossMark @ '' Request Error: '' @ orElse (bodyMessage b) ''Invalid request''
                     @ ''. Please try again with different parameters.''
                 else
                   crossMark @ '' Error generating '' @ formats ! i @ '' content: '' @ m
                     @ ''. Please check your API key and try again.''
             | JsError m \<Rightarrow>
                 crossMark @ '' Error generating '' @ formats ! i @ '' content: '' @ m
                   @ ''. Please check your API key and try again.'')"
    by (intro allI impI failed)
  have c5: "\<forall>j svc'. (\<forall>k. k \<noteq> length calls + j \<longrightarrow> svc' k = svc k) \<longrightarrow>
          (\<exists>contents'.
             POST jsonParse toText (Some key) (Inr req) svc'
               = (Success contents' brandVoice, calls @ map FormatCall formats) \<and>
             length contents' = length formats \<and>
             (\<forall>i<length formats. i \<noteq> j \<longrightarrow> contents' ! i = ?contents ! i))"
  proof (intro allI)
    fix j svc'
    show "(\<forall>k. k \<noteq> length calls + j \<longrightarrow> svc' k = svc k) \<longrightarrow>
          (\<exists>contents'.
             POST jsonParse toText (Some key) (Inr req) svc'
               = (Success contents' brandVoice, calls @ map FormatCall formats) \<and>
             length contents' = length formats \<and>
             (\<forall>i<length formats. i \<noteq> j \<longrightarrow> contents' ! i = ?contents ! i))"
      by (rule impI) (rule others)
  qed
  have c6: "\<forall>x y. crossMark @ '' Authentication Error: '' @ x
      \<noteq> crossMark @ '' Request Error: '' @ y"
    by (intro allI distinct)
  show ?thesis
    by (rule exI [of _ ?contents]) (intro conjI c1 c2 c3 c4 c5 c6)
qed

text \<open>
  An instance: five formats are requested without a brand voice and the call of the third
  raises an authentication error; the response holds five artifacts, the third with the
  authentication message and no score.
\<close>

lemma format_failures_isolated_instance:
  "\<exists>contents.
     POST (\<lambda>s. Inl (JsError ''Unexpected token'')) (\<lambda>v. ''[object Object]'')
       (Some ''sk-ant-0123456789abcdef'')
       (Inr \<lparr>reqTopic = Some ''Spring sale'', reqIndustry = Some ''retail'',
             reqFormats = Some [''blog'', ''linkedin'', ''twitter'', ''email'', ''newsletter''],
             reqBrandVoiceExamples = None, reqBrandVoice = None\<rparr>)
       (\<lambda>n. if n = 2 then Raises (ApiError (Some 401) None ''401 unauthorized'')
            else Reply [TextBlock ''Generated text''])
     = (Success contents None,
        [FormatCall ''blog'', FormatCall ''linkedin'', FormatCall ''twitter'', FormatCall ''email'',
         FormatCall ''newsletter'']) \<and>
     length contents = 5 \<and>
     format (contents ! 2) = ''twitter'' \<and>
     content (contents ! 2) = crossMark @ '' Authentication Error: Invalid API key. Please check your ANTHROPIC_API_KEY in Vercel environment variables.'' \<and>
     consistencyScore (contents ! 2) = None"
proof -
  let ?parse = "\<lambda>s :: string. Inl (JsError ''Unexpected token'') :: Thrown + json"
  let ?text = "\<lambda>v :: json. ''[object Object]''"
  let ?key = "''sk-ant-0123456789abcdef''"
  let ?formats = "[''blog'', ''linkedin'', ''twitter'', ''email'', ''newsletter'']"
  let ?req = "\<lparr>reqTopic = Some ''Spring sale'', reqIndustry = Some ''retail'',
             reqFormats = Some ?formats, reqBrandVoiceExamples = None, reqBrandVoice = None\<rparr>"
  let ?e = "ApiError (Some 401) None ''401 unauthorized''"
  let ?svc = "\<lambda>n :: nat. if n = 2 then Raises ?e else Reply [TextBlock ''Generated text'']"
  have key: "validateApiKey ?key"
    by (simp add: validateApiKey_def startsWith_def)
  have detect: "detectImageRequest ''Spring sale'' (Some []) =
      Inr \<lparr>wantsImage = False, imageOnly = False, reasoning = []\<rparr>"
    by (simp add: detectImageRequest_def Let_def some_def imageKeywords_def imageOnlyKeywords_def
        js_includes_def toLowerCase_def lowerChar_def sublist_code)
  have reach: "beforeGeneration ?parse ?text ?req ?svc
      = Inr (''Spring sale'', ''retail'', ?formats, None, None, [])"
    by (simp add: beforeGeneration_def resolveBrandVoice_def Let_def examplesToUse_def orElse_def
        detect truthyOpt_def)
  have shaped: "brandVoiceContext None = Inr None"
    by (simp add: brandVoiceContext_def)
  obtain contents where
    post: "POST ?parse ?text (Some ?key) (Inr ?req) ?svc
        = (Success contents None, [] @ map FormatCall ?formats)"
    and len: "length contents = length ?formats"
    and fmt: "\<forall>i<length ?formats. format (contents ! i) = ?formats ! i"
    and failed: "\<forall>i<length ?formats. \<forall>e. ?svc (length ([] :: Call list) + i) = Raises e \<longrightarrow>
          consistencyScore (contents ! i) = None \<and>
          content (contents ! i) =
            (case e of
               ApiError st b m \<Rightarrow>
                 if st = Some 401 \<or> bodyType b = Some ''authentication_error'' then
                   crossMark @ '' Authentication Error: ''
                     @ orElse (bodyMessage b) ''Invalid API key''
                     @ ''. Please check your ANTHROPIC_API_KEY in Vercel environment variables.''
                 else if st = Some 400 \<or> bodyType b = Some ''invalid_request_error'' then
                   crossMark @ '' Request Error: '' @ orElse (bodyMessage b) ''Invalid request''
                     @ ''. Please try again with different parameters.''
                 else
                   crossMark @ '' Error generating '' @ ?formats ! i @ '' content: '' @ m
                     @ ''. Please check your API key and try again.''
             | JsError m \<Rightarrow>
                 crossMark @ '' Error generating '' @ ?formats ! i @ '' content: '' @ m
                   @ ''. Please check your API key and try again.'')"
    using format_failures_isolated [OF key reach shaped] by (elim exE conjE) (rule that; assumption)
  have two: "(2::nat) < length ?formats" by simp
  have f2: "format (contents ! 2) = ''twitter''"
    using fmt [rule_format, OF two] by simp
  have raised: "?svc (length ([] :: Call list) + 2) = Raises ?e" by simp
  note at2 = failed [rule_format, OF two raised]
  have s2: "consistencyScore (contents ! 2) = None"
    using at2 by (rule conjunct1)
  have "content (contents ! 2) =
      (case ?e of
         ApiError st b m \<Rightarrow>
           if st = Some 401 \<or> bodyType b = Some ''authentication_error'' then
             crossMark @ '' Authentication Error: ''
               @ orElse (bodyMessage b) ''Invalid API key''
               @ ''. Please check your ANTHROPIC_API_KEY in Vercel environment variables.''
           else if st = Some 400 \<or> bodyType b = Some ''invalid_request_error'' then
             crossMark @ '' Request Error: '' @ orElse (bodyMessage b) ''Invalid request''
               @ ''. Please try again with different parameters.''
           else
             crossMark @ '' Error generating '' @ ?formats ! 2 @ '' content: '' @ m
               @ ''. Please check your API key and try again.''
       | JsError m \<Rightarrow>
           crossMark @ '' Error generating '' @ ?formats ! 2 @ '' content: '' @ m
             @ ''. Please check your API key and try again.'')"
    using at2 by (rule conjunct2)
  then have body: "content (contents ! 2) = crossMark @ '' Authentication Error: Invalid API key. Please check your ANTHROPIC_API_KEY in Vercel environment variables.''"
    by (simp add: orElse_def bodyMessage_def)
  from post len f2 body s2 show ?thesis
    by (intro exI [of _ contents] conjI) simp_all
qed

lemma beforeGeneration_formats:
  assumes "beforeGeneration jsonParse toText req svc
             = Inr (topic, industry, formats, brandVoice, svg, calls)"
  shows "formats \<noteq> []"
  using assms unfolding beforeGeneration_def Let_def
  by (auto split: if_splits sum.splits prod.splits)

text \<open>
  The batch on a truthy brand voice whose terminology is not an array: every member is
  rejected at line 398, the handler catches the rejection, and the response is the error
  of the handler, with no artifact and no call made for any format.
\<close>

lemma batch_rejected:
  assumes key: "validateApiKey key"
    and reach: "beforeGeneration jsonParse toText req svc
                  = Inr (topic, industry, formats, brandVoice, svg, calls)"
    and ill_shaped: "brandVoiceContext brandVoice = Inl e"
  shows "POST jsonParse toText (Some key) (Inr req) svc = (postFailed e, calls)"
  using validateApiKey_nonempty [OF key] key reach
    generateAll_ill_shaped [OF ill_shaped beforeGeneration_formats [OF reach]]
  by (simp add: POST_def generateAndRespond_def)

text \<open>
  Claim C2, at a failing input. Two formats are requested with one calibration example,
  and the service answers the analysis with \<open>{"tone":"bold"}\<close>, an object without a
  terminology. The analysis is returned as it was decoded, line 398 reads
  \<^verbatim>\<open>brandVoice.terminology.join\<close> outside the \<^verbatim>\<open>try\<close> of \<open>generateContentForFormat\<close>, both
  members of the batch are rejected, and the response is the error 500 of the handler:
  no artifact for either format, and no call made for a format. The same happens when
  the request carries that analysis as its \<^verbatim>\<open>brandVoice\<close>. With a terminology in the reply
  the same request gets its two artifacts.
\<close>

theorem batch_rejected_without_terminology:
  "POST (\<lambda>s. if s = ''{\"tone\":\"bold\"}'' then Inr (JObj [(''tone'', JStr ''bold'')])
              else Inl (JsError ''Unexpected token''))
     (\<lambda>v. ''[object Object]'') (Some ''sk-ant-0123456789abcdef'')
     (Inr \<lparr>reqTopic = Some ''Spring sale'', reqIndustry = Some ''retail'',
           reqFormats = Some [''blog'', ''twitter''],
           reqBrandVoiceExamples = Some (JArr [JStr ''We write boldly'']),
           reqBrandVoice = None\<rparr>)
     (\<lambda>n. if n = 0 then Reply [TextBlock ''{\"tone\":\"bold\"}'']
          else Reply [TextBlock ''Generated text''])
   = (Failure 500 ''Internal server error: Cannot read properties of undefined (reading 'join')''
        None,
      [AnalysisCall [JObj [(''type'', JStr ''text''), (''content'', JStr ''We write boldly'')]]]) \<and>
   POST (\<lambda>s. Inl (JsError ''Unexpected token'')) (\<lambda>v. ''[object Object]'')
     (Some ''sk-ant-0123456789abcdef'')
     (Inr \<lparr>reqTopic = Some ''Spring sale'', reqIndustry = Some ''retail'',
           reqFormats = Some [''blog'', ''twitter''],
           reqBrandVoiceExamples = None,
           reqBrandVoice = Some (JObj [(''tone'', JStr ''bold'')])\<rparr>)
     (\<lambda>n. Reply [TextBlock ''Generated text''])
   = (Failure 500 ''Internal server error: Cannot read properties of undefined (reading 'join')''
        None, []) \<and>
   POST (\<lambda>s. if s = ''{\"tone\":\"bold\",\"terminology\":[]}''
              then Inr (JObj [(''tone'', JStr ''bold''), (''terminology'', JArr [])])
              else Inl (JsError ''Unexpected token''))
     (\<lambda>v. ''[object Object]'') (Some ''sk-ant-0123456789abcdef'')
     (Inr \<lparr>reqTopic = Some ''Spring sale'', reqIndustry = Some ''retail'',
           reqFormats = Some [''blog'', ''twitter''],
           reqBrandVoiceExamples = Some (JArr [JStr ''We write boldly'']),
           reqBrandVoice = None\<rparr>)
     (\<lambda>n. if n = 0 then Reply [TextBlock ''{\"tone\":\"bold\",\"terminology\":[]}'']
          else Reply [TextBlock ''Generated text''])
   = (Success
        [\<lparr>format = ''blog'', content = ''Generated text'', consistencyScore = Some 75,
          title = None, imageUrl = None\<rparr>,
         \<lparr>format = ''twitter'', content = ''Generated text'', consistencyScore = Some 75,
          title = None, imageUrl = None\<rparr>]
        (Some (JObj [(''tone'', JStr ''bold''), (''terminology'', JArr [])])),
      [AnalysisCall [JObj [(''type'', JStr ''text''), (''content'', JStr ''We write boldly'')]],
       FormatCall ''blog'', FormatCall ''twitter''])"
proof -
  let ?key = "''sk-ant-0123456789abcdef''"
  have key: "validateApiKey ?key" "orElse (Some ?key) [] = ?key"
    by (simp_all add: validateApiKey_def startsWith_def orElse_def)
  have detect: "detectImageRequest ''Spring sale'' (Some exs) =
      Inr \<lparr>wantsImage = False, imageOnly = False, reasoning = []\<rparr>"
    if "exs = [] \<or> exs = [JObj [(''type'', JStr ''text''), (''content'', JStr ''We write boldly'')]]"
    for exs
    using that
    by (auto simp: detectImageRequest_def Let_def some_def imageKeywords_def imageOnlyKeywords_def
        js_includes_def toLowerCase_def lowerChar_def sublist_code mentionsImage_def
        textToCheck_def orJ_def truthyOpt_def isImageExample_def)
  have exs: "examplesToUse (Some (JArr [JStr ''We write boldly'']))
      = [JObj [(''type'', JStr ''text''), (''content'', JStr ''We write boldly'')]]"
    by (simp add: examplesToUse_def isString_def textExample_def)
  have processed: "processedExamples [JObj [(''type'', JStr ''text''), (''content'', JStr ''We write boldly'')]]
      = [JObj [(''type'', JStr ''text''), (''content'', JStr ''We write boldly'')]]"
    by (simp add: processedExamples_def isString_def orJ_def truthyOpt_def)
  have bold: "extractJson ''{\"tone\":\"bold\"}'' = ''{\"tone\":\"bold\"}''"
    by code_simp
  have full: "extractJson ''{\"tone\":\"bold\",\"terminology\":[]}''
      = ''{\"tone\":\"bold\",\"terminology\":[]}''"
    by code_simp
  have first: "POST (\<lambda>s. if s = ''{\"tone\":\"bold\"}'' then Inr (JObj [(''tone'', JStr ''bold'')])
              else Inl (JsError ''Unexpected token''))
     (\<lambda>v. ''[object Object]'') (Some ?key)
     (Inr \<lparr>reqTopic = Some ''Spring sale'', reqIndustry = Some ''retail'',
           reqFormats = Some [''blog'', ''twitter''],
           reqBrandVoiceExamples = Some (JArr [JStr ''We write boldly'']),
           reqBrandVoice = None\<rparr>)
     (\<lambda>n. if n = 0 then Reply [TextBlock ''{\"tone\":\"bold\"}'']
          else Reply [TextBlock ''Generated text''])
   = (Failure 500 ''Internal server error: Cannot read properties of undefined (reading 'join')''
        None,
      [AnalysisCall [JObj [(''type'', JStr ''text''), (''content'', JStr ''We write boldly'')]]])"
    by (simp add: POST_def key beforeGeneration_def Let_def exs processed detect orElse_def
        analyzeBrandVoice_def analysisOfReply_def bold generateAndRespond_def generateAll_def
        generateContentForFormat_def brandVoiceContext_def converts_def resolveBrandVoice_def postFailed_def enumerate_eq_zip)
  have second: "POST (\<lambda>s. Inl (JsError ''Unexpected token'')) (\<lambda>v. ''[object Object]'')
     (Some ?key)
     (Inr \<lparr>reqTopic = Some ''Spring sale'', reqIndustry = Some ''retail'',
           reqFormats = Some [''blog'', ''twitter''],
           reqBrandVoiceExamples = None,
           reqBrandVoice = Some (JObj [(''tone'', JStr ''bold'')])\<rparr>)
     (\<lambda>n. Reply [TextBlock ''Generated text''])
   = (Failure 500 ''Internal server error: Cannot read properties of undefined (reading 'join')''
        None, [])"
    by (simp add: POST_def key beforeGeneration_def Let_def examplesToUse_def detect orElse_def
        truthyOpt_def generateAndRespond_def generateAll_def
        generateContentForFormat_def brandVoiceContext_def converts_def resolveBrandVoice_def postFailed_def enumerate_eq_zip)
  have third: "POST (\<lambda>s. if s = ''{\"tone\":\"bold\",\"terminology\":[]}''
              then Inr (JObj [(''tone'', JStr ''bold''), (''terminology'', JArr [])])
              else Inl (JsError ''Unexpected token''))
     (\<lambda>v. ''[object Object]'') (Some ?key)
     (Inr \<lparr>reqTopic = Some ''Spring sale'', reqIndustry = Some ''retail'',
           reqFormats = Some [''blog'', ''twitter''],
           reqBrandVoiceExamples = Some (JArr [JStr ''We write boldly'']),
           reqBrandVoice = None\<rparr>)
     (\<lambda>n. if n = 0 then Reply [TextBlock ''{\"tone\":\"bold\",\"terminology\":[]}'']
          else Reply [TextBlock ''Generated text''])
   = (Success
        [\<lparr>format = ''blog'', content = ''Generated text'', consistencyScore = Some 75,
          title = None, imageUrl = None\<rparr>,
         \<lparr>format = ''twitter'', content = ''Generated text'', consistencyScore = Some 75,
          title = None, imageUrl = None\<rparr>]
        (Some (JObj [(''tone'', JStr ''bold''), (''terminology'', JArr [])])),
      [AnalysisCall [JObj [(''type'', JStr ''text''), (''content'', JStr ''We write boldly'')]],
       FormatCall ''blog'', FormatCall ''twitter''])"
    by (simp add: POST_def key beforeGeneration_def Let_def exs processed detect orElse_def
        analyzeBrandVoice_def analysisOfReply_def full generateAndRespond_def generateAll_def
        generateContentForFormat_def brandVoiceContext_def converts_def resolveBrandVoice_def generationOfReply_def
        consistencyScoreOf_def artifact_def attachImage_def List.map_filter_simps
        enumerate_eq_zip)
  from first second third show ?thesis
    by (intro conjI)
qed

subsection \<open>The candidate handed to the decoder\<close>

lemma greedyUpTo_SomeD:
  "greedyUpTo follows closer s = Some m \<Longrightarrow>
     \<exists>p r. s = p @ closer @ r \<and> follows r \<and> m = p @ closer \<and>
       (\<forall>p' r'. s = p' @ closer @ r' \<and> follows r' \<longrightarrow> length p' \<le> length p)"
proof (induction s arbitrary: m)
  case Nil
  then show ?case by (auto split: if_splits)
next
  case (Cons c cs)
  show ?case
  proof (cases "greedyUpTo follows closer cs")
    case None
    with Cons.prems have here: "prefix closer (c # cs)" "follows (drop (length closer) (c # cs))"
      and m: "m = closer"
      by (auto split: if_splits)
    from here(1) obtain r where r: "c # cs = closer @ r" by (auto simp: prefix_def)
    with here(2) have fr: "follows r" by simp
    have "length p' \<le> 0" if "c # cs = p' @ closer @ r'" "follows r'" for p' r'
    proof (cases p')
      case Nil
      then show ?thesis by simp
    next
      case (Cons x p'')
      with that have "cs = p'' @ closer @ r'" by simp
      with that(2) None show ?thesis
        by (auto simp: greedyUpTo_None_iff)
    qed
    with r fr m show ?thesis
      by (intro exI [of _ "[]"] exI [of _ r]) auto
  next
    case (Some m')
    with Cons.prems have m: "m = c # m'" by simp
    from Cons.IH [OF Some] obtain p r where pr: "cs = p @ closer @ r" "follows r" "m' = p @ closer"
      and mx: "\<forall>p' r'. cs = p' @ closer @ r' \<and> follows r' \<longrightarrow> length p' \<le> length p"
      by blast
    have "length p' \<le> length (c # p)" if "c # cs = p' @ closer @ r'" "follows r'" for p' r'
    proof (cases p')
      case Nil
      then show ?thesis by simp
    next
      case (Cons x p'')
      with that have "cs = p'' @ closer @ r'" by simp
      with that(2) mx have "length p'' \<le> length p" by blast
      with Cons show ?thesis by simp
    qed
    with pr m show ?thesis
      by (intro exI [of _ "c # p"] exI [of _ r]) auto
  qed
qed

lemma firstMatch_SomeD:
  "firstMatch matchAt s = Some m \<Longrightarrow>
     \<exists>a u. s = a @ u \<and> matchAt u = Some m \<and>
       (\<forall>a' u'. s = a' @ u' \<and> length a' < length a \<longrightarrow> matchAt u' = None)"
proof (induction s)
  case Nil
  then show ?case by auto
next
  case (Cons c cs)
  show ?case
  proof (cases "matchAt (c # cs)")
    case None
    with Cons.prems have "firstMatch matchAt cs = Some m" by simp
    from Cons.IH [OF this] obtain a u where au: "cs = a @ u" "matchAt u = Some m"
      and first: "\<forall>a' u'. cs = a' @ u' \<and> length a' < length a \<longrightarrow> matchAt u' = None"
      by blast
    have "matchAt u' = None" if "c # cs = a' @ u'" "length a' < length (c # a)" for a' u'
    proof (cases a')
      case Nil
      with that None show ?thesis by simp
    next
      case (Cons x a'')
      with that first show ?thesis by auto
    qed
    with au show ?thesis
      by (intro exI [of _ "c # a"] exI [of _ u]) auto
  next
    case (Some m')
    with Cons.prems have "m' = m" by simp
    with Some show ?thesis
      by (intro exI [of _ "[]"] exI [of _ "c # cs"]) auto
  qed
qed

lemma greedyUpTo_closed:
  "follows [] \<Longrightarrow> closer \<noteq> [] \<Longrightarrow> greedyUpTo follows closer (b @ closer) = Some (b @ closer)"
proof (induction b)
  case Nil
  have "greedyUpTo follows closer closer = Some closer"
  proof (cases closer)
    case Nil
    with \<open>closer \<noteq> []\<close> show ?thesis by simp
  next
    case (Cons x xs)
    have "greedyUpTo follows closer xs = None"
      unfolding greedyUpTo_None_iff using Cons
      by (auto dest!: arg_cong [where f = length])
    with Cons Nil.prems show ?thesis by simp
  qed
  then show ?case by simp
next
  case (Cons c b)
  then show ?case by simp
qed

lemma jsonObjectAt_SomeD:
  assumes "jsonObjectAt u = Some m"
  shows "\<exists>b c. u = ''{'' @ b @ ''}'' @ c \<and> CHR ''}'' \<notin> set c \<and> m = ''{'' @ b @ ''}''"
proof -
  from assms obtain body m' where u: "u = CHR ''{'' # body"
    and g: "greedyUpTo (\<lambda>rest. True) ''}'' body = Some m'" and m: "m = CHR ''{'' # m'"
    by (auto simp: jsonObjectAt_def split: list.splits if_splits)
  from greedyUpTo_SomeD [OF g] obtain p r where pr: "body = p @ ''}'' @ r" "m' = p @ ''}''"
    and mx: "\<forall>p' r'. body = p' @ ''}'' @ r' \<longrightarrow> length p' \<le> length p"
    by auto
  have "CHR ''}'' \<notin> set r"
  proof
    assume "CHR ''}'' \<in> set r"
    then obtain r1 r2 where "r = r1 @ CHR ''}'' # r2" by (auto simp: in_set_conv_decomp)
    with pr have "body = (p @ ''}'' @ r1) @ ''}'' @ r2" by simp
    with mx have "length (p @ ''}'' @ r1) \<le> length p" by blast
    then show False by simp
  qed
  with u pr m show ?thesis by auto
qed

lemma jsonObjectAt_None_iff:
  "jsonObjectAt u = None \<longleftrightarrow> \<not> (\<exists>b c. u = ''{'' @ b @ ''}'' @ c)"
  by (cases u) (auto simp: jsonObjectAt_def greedyUpTo_None_iff)

lemma jsonObject_match_None_iff:
  "firstMatch jsonObjectAt s = None \<longleftrightarrow> \<not> (\<exists>a b c. s = a @ ''{'' @ b @ ''}'' @ c)"
  unfolding firstMatch_None_iff jsonObjectAt_None_iff by blast

lemma jsonObject_match_SomeD:
  assumes "firstMatch jsonObjectAt s = Some m"
  shows "\<exists>a b c. s = a @ ''{'' @ b @ ''}'' @ c \<and> CHR ''{'' \<notin> set a \<and> CHR ''}'' \<notin> set c \<and>
           m = ''{'' @ b @ ''}''"
proof -
  from firstMatch_SomeD [OF assms] obtain a u where au: "s = a @ u" "jsonObjectAt u = Some m"
    and first: "\<forall>a' u'. s = a' @ u' \<and> length a' < length a \<longrightarrow> jsonObjectAt u' = None"
    by blast
  from jsonObjectAt_SomeD [OF au(2)] obtain b c where
    bc: "u = ''{'' @ b @ ''}'' @ c" "CHR ''}'' \<notin> set c" "m = ''{'' @ b @ ''}''"
    by blast
  have "CHR ''{'' \<notin> set a"
  proof
    assume "CHR ''{'' \<in> set a"
    then obtain a1 a2 where a: "a = a1 @ CHR ''{'' # a2" by (auto simp: in_set_conv_decomp)
    with au bc have "s = a1 @ (''{'' @ (a2 @ ''{'' @ b) @ ''}'' @ c)" by simp
    moreover have "length a1 < length a" using a by simp
    ultimately have "jsonObjectAt (''{'' @ (a2 @ ''{'' @ b) @ ''}'' @ c) = None"
      using first by blast
    then show False
      unfolding jsonObjectAt_None_iff by blast
  qed
  with au bc show ?thesis by blast
qed

lemma jsonObjectAt_closed: "jsonObjectAt (''{'' @ b @ ''}'') = Some (''{'' @ b @ ''}'')"
  using greedyUpTo_closed [of "\<lambda>rest. True" "''}''" b]
  by (simp add: jsonObjectAt_def)

lemma firstMatch_here: "matchAt s = Some m \<Longrightarrow> firstMatch matchAt s = Some m"
  by (cases s) simp_all

text \<open>The opening of a fenced span determines what \<open>fencedJsonAt\<close> skips.\<close>

lemma isSpace_not_fence: "isSpace x \<Longrightarrow> x \<noteq> CHR 0x60 \<and> x \<noteq> CHR ''j'' \<and> x \<noteq> CHR ''{''"
  by (auto simp: isSpace_def)

lemma fence_opening:
  assumes u: "u = ''```'' @ tag @ ws @ CHR ''{'' # rest"
    and tag: "tag = [] \<or> tag = ''json''"
    and ws: "\<forall>x \<in> set ws. isSpace x"
  shows "prefix ''```'' u \<and>
         dropWhile isSpace (if prefix ''json'' (drop 3 u) then drop 4 (drop 3 u) else drop 3 u)
           = CHR ''{'' # rest"
proof -
  have d: "dropWhile isSpace (ws @ CHR ''{'' # rest) = CHR ''{'' # rest"
    using ws by (simp add: dropWhile_append3 isSpace_def)
  have nj: "\<not> prefix ''json'' (ws @ CHR ''{'' # rest)"
  proof (cases ws)
    case Nil
    then show ?thesis by simp
  next
    case (Cons x xs)
    with ws have "isSpace x" by simp
    then have "x \<noteq> CHR ''j''" by (simp add: isSpace_not_fence)
    with Cons show ?thesis by simp
  qed
  from tag show ?thesis
  proof
    assume "tag = []"
    with u nj d show ?thesis by simp
  next
    assume "tag = ''json''"
    with u d show ?thesis by simp
  qed
qed

lemma closingFence_iff:
  "closingFence r \<longleftrightarrow> (\<exists>ws c. r = ws @ ''```'' @ c \<and> (\<forall>x \<in> set ws. isSpace x))"
proof
  assume "closingFence r"
  then obtain c where "dropWhile isSpace r = ''```'' @ c"
    by (auto simp: closingFence_def prefix_def)
  then have "r = takeWhile isSpace r @ ''```'' @ c"
    by (metis takeWhile_dropWhile_id)
  moreover have "\<forall>x \<in> set (takeWhile isSpace r). isSpace x"
    by (auto dest: set_takeWhileD)
  ultimately show "\<exists>ws c. r = ws @ ''```'' @ c \<and> (\<forall>x \<in> set ws. isSpace x)"
    by blast
next
  assume "\<exists>ws c. r = ws @ ''```'' @ c \<and> (\<forall>x \<in> set ws. isSpace x)"
  then obtain ws c where r: "r = ws @ ''```'' @ c" and ws: "\<forall>x \<in> set ws. isSpace x"
    by blast
  have "dropWhile isSpace (ws @ ''```'' @ c) = ''```'' @ c"
    using ws by (simp add: dropWhile_append3 isSpace_def)
  with r show "closingFence r"
    by (simp add: closingFence_def)
qed

lemma fencedJsonAt_SomeD:
  assumes "fencedJsonAt u = Some g"
  shows "\<exists>tag ws b ws' c. u = ''```'' @ tag @ ws @ g @ ws' @ ''```'' @ c \<and>
           (tag = [] \<or> tag = ''json'') \<and> (\<forall>x \<in> set ws. isSpace x) \<and>
           (\<forall>x \<in> set ws'. isSpace x) \<and> g = ''{'' @ b @ ''}''"
proof -
  define afterFence where "afterFence = drop 3 u"
  define afterTag where
    "afterTag = (if prefix ''json'' afterFence then drop 4 afterFence else afterFence)"
  from assms have pre: "prefix ''```'' u"
    by (auto simp: fencedJsonAt_def split: if_splits)
  with assms obtain body m where d: "dropWhile isSpace afterTag = CHR ''{'' # body"
    and gr: "greedyUpTo closingFence ''}'' body = Some m" and g: "g = CHR ''{'' # m"
    by (auto simp: fencedJsonAt_def Let_def afterFence_def afterTag_def
        split: if_splits list.splits)
  from pre have u: "u = ''```'' @ afterFence"
    by (auto simp: prefix_def afterFence_def)
  obtain tag where tag: "afterFence = tag @ afterTag" "tag = [] \<or> tag = ''json''"
  proof (cases "prefix ''json'' afterFence")
    case True
    then have "afterFence = ''json'' @ afterTag"
      by (auto simp: prefix_def afterTag_def)
    then show ?thesis using that by blast
  next
    case False
    then have "afterFence = [] @ afterTag" by (simp add: afterTag_def)
    then show ?thesis using that by blast
  qed
  have at: "afterTag = takeWhile isSpace afterTag @ CHR ''{'' # body"
    using d by (metis takeWhile_dropWhile_id)
  have ws: "\<forall>x \<in> set (takeWhile isSpace afterTag). isSpace x"
    by (auto dest: set_takeWhileD)
  from greedyUpTo_SomeD [OF gr] obtain p r where pr: "body = p @ ''}'' @ r" "closingFence r"
    "m = p @ ''}''"
    by blast
  from pr(2) obtain ws' c where r: "r = ws' @ ''```'' @ c" and ws': "\<forall>x \<in> set ws'. isSpace x"
    unfolding closingFence_iff by blast
  have "u = ''```'' @ tag @ takeWhile isSpace afterTag @ g @ ws' @ ''```'' @ c"
    using u tag(1) at pr(1,3) r g by simp
  moreover have "g = ''{'' @ p @ ''}''"
    using g pr(3) by simp
  ultimately show ?thesis
    using tag(2) ws ws' by blast
qed

lemma fencedJsonAt_longest:
  assumes m: "fencedJsonAt u = Some g"
    and u: "u = ''```'' @ tag @ ws @ g' @ ws' @ ''```'' @ c"
    and tag: "tag = [] \<or> tag = ''json''"
    and ws: "\<forall>x \<in> set ws. isSpace x" "\<forall>x \<in> set ws'. isSpace x"
    and g': "g' = ''{'' @ b @ ''}''"
  shows "length g' \<le> length g"
proof -
  let ?rest = "b @ ''}'' @ ws' @ ''```'' @ c"
  have "u = ''```'' @ tag @ ws @ CHR ''{'' # ?rest"
    using u g' by simp
  from fence_opening [OF this tag ws(1)]
  have d: "dropWhile isSpace (if prefix ''json'' (drop 3 u) then drop 4 (drop 3 u) else drop 3 u)
      = CHR ''{'' # ?rest" and pre: "prefix ''```'' u"
    by simp_all
  from m pre d obtain p where gr: "greedyUpTo closingFence ''}'' ?rest = Some p"
    and g: "g = CHR ''{'' # p"
    by (auto simp: fencedJsonAt_def Let_def)
  from greedyUpTo_SomeD [OF gr] obtain q r where q: "p = q @ ''}''"
    and mx: "\<forall>p' r'. ?rest = p' @ ''}'' @ r' \<and> closingFence r' \<longrightarrow> length p' \<le> length q"
    by blast
  have "closingFence (ws' @ ''```'' @ c)"
    unfolding closingFence_iff using ws(2) by blast
  with mx have "length b \<le> length q" by blast
  with g q g' show ?thesis by simp
qed

lemma fencedJsonAt_None_iff:
  "fencedJsonAt u = None \<longleftrightarrow>
     \<not> (\<exists>g tag ws b ws' c. u = ''```'' @ tag @ ws @ g @ ws' @ ''```'' @ c \<and>
           (tag = [] \<or> tag = ''json'') \<and> (\<forall>x \<in> set ws. isSpace x) \<and>
           (\<forall>x \<in> set ws'. isSpace x) \<and> g = ''{'' @ b @ ''}'')"
proof
  assume none: "fencedJsonAt u = None"
  show "\<not> (\<exists>g tag ws b ws' c. u = ''```'' @ tag @ ws @ g @ ws' @ ''```'' @ c \<and>
           (tag = [] \<or> tag = ''json'') \<and> (\<forall>x \<in> set ws. isSpace x) \<and>
           (\<forall>x \<in> set ws'. isSpace x) \<and> g = ''{'' @ b @ ''}'')"
  proof
    assume "\<exists>g tag ws b ws' c. u = ''```'' @ tag @ ws @ g @ ws' @ ''```'' @ c \<and>
           (tag = [] \<or> tag = ''json'') \<and> (\<forall>x \<in> set ws. isSpace x) \<and>
           (\<forall>x \<in> set ws'. isSpace x) \<and> g = ''{'' @ b @ ''}''"
    then obtain g tag ws b ws' c where u: "u = ''```'' @ tag @ ws @ g @ ws' @ ''```'' @ c"
      and tag: "tag = [] \<or> tag = ''json''" and ws: "\<forall>x \<in> set ws. isSpace x"
      and ws': "\<forall>x \<in> set ws'. isSpace x" and g: "g = ''{'' @ b @ ''}''"
      by blast
    let ?rest = "b @ ''}'' @ ws' @ ''```'' @ c"
    have "u = ''```'' @ tag @ ws @ CHR ''{'' # ?rest"
      using u g by simp
    from fence_opening [OF this tag ws]
    have d: "dropWhile isSpace (if prefix ''json'' (drop 3 u) then drop 4 (drop 3 u) else drop 3 u)
        = CHR ''{'' # ?rest" and pre: "prefix ''```'' u"
      by simp_all
    have "closingFence (ws' @ ''```'' @ c)"
      unfolding closingFence_iff using ws' by blast
    then have "greedyUpTo closingFence ''}'' ?rest \<noteq> None"
      unfolding greedyUpTo_None_iff by blast
    with pre d have "fencedJsonAt u \<noteq> None"
      by (auto simp: fencedJsonAt_def Let_def)
    with none show False by simp
  qed
next
  assume no: "\<not> (\<exists>g tag ws b ws' c. u = ''```'' @ tag @ ws @ g @ ws' @ ''```'' @ c \<and>
           (tag = [] \<or> tag = ''json'') \<and> (\<forall>x \<in> set ws. isSpace x) \<and>
           (\<forall>x \<in> set ws'. isSpace x) \<and> g = ''{'' @ b @ ''}'')"
  show "fencedJsonAt u = None"
  proof (rule ccontr)
    assume "fencedJsonAt u \<noteq> None"
    then obtain g where "fencedJsonAt u = Some g" by blast
    from fencedJsonAt_SomeD [OF this] no show False by blast
  qed
qed

text \<open>
  Claim C4 as stated fails at two replies. In \<open>{"tone":"bold"} }\<close> the first balanced
  brace-delimited substring is the object, while the code takes the span from the first
  opening brace to the last closing brace. In a fenced block that holds an array, the
  inner contents are the array, while the code finds no brace span inside a fence and no
  brace at all and takes the reply itself, fences included.
\<close>

theorem json_candidate_counterexample:
  "extractJson ''{\"tone\":\"bold\"} }'' = ''{\"tone\":\"bold\"} }'' \<and>
   specExtractJson ''{\"tone\":\"bold\"} }'' = ''{\"tone\":\"bold\"}'' \<and>
   extractJson ''```json\<newline>[\"bold\"]\<newline>```'' = ''```json\<newline>[\"bold\"]\<newline>```'' \<and>
   specExtractJson ''```json\<newline>[\"bold\"]\<newline>```'' = ''[\"bold\"]''"
  by code_simp

text \<open>
  Claim C4, amended. Let \<open>t\<close> be the trimmed reply, and call a text \<open>g\<close> a fenced span at
  \<open>u\<close> when \<open>u\<close> starts with a fence, an optional \<open>json\<close> and optional white space, then
  \<open>g\<close>, which starts with an opening and ends with a closing brace, then optional white
  space and a fence. (a) If \<open>t\<close> has a fenced span somewhere, the candidate is the longest
  fenced span at the leftmost position that has one. (b) Otherwise, if \<open>t\<close> has an opening
  brace with a closing brace after it, the candidate is the span from the first opening
  brace of \<open>t\<close> to its last closing brace. (c) Otherwise the candidate is \<open>t\<close>. The
  candidate is decoded, and what the decoder returns is returned as it is; when the
  decoder raises, the default profile is returned.
\<close>

theorem json_candidate_selection:
  fixes reply :: string
  defines "t \<equiv> trim reply"
  defines "fenced \<equiv> \<lambda>u g. \<exists>tag ws b ws' c. u = ''```'' @ tag @ ws @ g @ ws' @ ''```'' @ c \<and>
             (tag = [] \<or> tag = ''json'') \<and> (\<forall>x \<in> set ws. isSpace x) \<and>
             (\<forall>x \<in> set ws'. isSpace x) \<and> g = ''{'' @ b @ ''}''"
  shows "((\<exists>a u g. t = a @ u \<and> fenced u g) \<longrightarrow>
            (\<exists>a u. t = a @ u \<and> fenced u (extractJson reply) \<and>
               (\<forall>g'. fenced u g' \<longrightarrow> length g' \<le> length (extractJson reply)) \<and>
               (\<forall>a' u' g'. t = a' @ u' \<and> length a' < length a \<longrightarrow> \<not> fenced u' g'))) \<and>
         (\<not> (\<exists>a u g. t = a @ u \<and> fenced u g) \<and> (\<exists>a b c. t = a @ ''{'' @ b @ ''}'' @ c) \<longrightarrow>
            (\<exists>a b c. t = a @ ''{'' @ b @ ''}'' @ c \<and> CHR ''{'' \<notin> set a \<and> CHR ''}'' \<notin> set c \<and>
               extractJson reply = ''{'' @ b @ ''}'')) \<and>
         (\<not> (\<exists>a u g. t = a @ u \<and> fenced u g) \<and> \<not> (\<exists>a b c. t = a @ ''{'' @ b @ ''}'' @ c) \<longrightarrow>
            extractJson reply = t) \<and>
         (svc (length calls) = Reply (TextBlock reply # bs) \<longrightarrow>
            fst (analyzeBrandVoice jsonParse svc (Some (JArr (x # xs))) calls) =
              (case jsonParse (extractJson reply) of
                 Inr analysis \<Rightarrow> analysis
               | Inl e \<Rightarrow> defaultAnalysis))"
proof (intro conjI impI)
  have none: "firstMatch fencedJsonAt t = None \<longleftrightarrow> \<not> (\<exists>a u g. t = a @ u \<and> fenced u g)"
    unfolding firstMatch_None_iff fencedJsonAt_None_iff fenced_def by blast
  {
    assume "\<exists>a u g. t = a @ u \<and> fenced u g"
    with none obtain g where g: "firstMatch fencedJsonAt t = Some g" by auto
    from firstMatch_SomeD [OF g] obtain a u where au: "t = a @ u" "fencedJsonAt u = Some g"
      and first: "\<forall>a' u'. t = a' @ u' \<and> length a' < length a \<longrightarrow> fencedJsonAt u' = None"
      by blast
    from fencedJsonAt_SomeD [OF au(2)] have shape: "fenced u g"
      unfolding fenced_def by blast
    then obtain b where b: "g = ''{'' @ b @ ''}''"
      unfolding fenced_def by blast
    have "firstMatch jsonObjectAt g = Some g"
      unfolding b by (rule firstMatch_here) (rule jsonObjectAt_closed)
    with g have ex: "extractJson reply = g"
      by (simp add: extractJson_def Let_def t_def)
    have longest: "\<forall>g'. fenced u g' \<longrightarrow> length g' \<le> length g"
      unfolding fenced_def using fencedJsonAt_longest [OF au(2)] by blast
    have leftmost: "\<forall>a' u' g'. t = a' @ u' \<and> length a' < length a \<longrightarrow> \<not> fenced u' g'"
    proof (intro allI impI)
      fix a' u' g'
      assume "t = a' @ u' \<and> length a' < length a"
      with first have "fencedJsonAt u' = None" by blast
      then show "\<not> fenced u' g'"
        unfolding fencedJsonAt_None_iff fenced_def by blast
    qed
    from au(1) shape longest leftmost
    show "\<exists>a u. t = a @ u \<and> fenced u (extractJson reply) \<and>
               (\<forall>g'. fenced u g' \<longrightarrow> length g' \<le> length (extractJson reply)) \<and>
               (\<forall>a' u' g'. t = a' @ u' \<and> length a' < length a \<longrightarrow> \<not> fenced u' g')"
      unfolding ex by blast
  }
  {
    assume a: "\<not> (\<exists>a u g. t = a @ u \<and> fenced u g) \<and> (\<exists>a b c. t = a @ ''{'' @ b @ ''}'' @ c)"
    with none have nf: "firstMatch fencedJsonAt t = None" by blast
    from a have "firstMatch jsonObjectAt t \<noteq> None"
      unfolding jsonObject_match_None_iff by blast
    then obtain m where m: "firstMatch jsonObjectAt t = Some m" by blast
    with nf have "extractJson reply = m"
      by (simp add: extractJson_def Let_def t_def)
    with jsonObject_match_SomeD [OF m]
    show "\<exists>a b c. t = a @ ''{'' @ b @ ''}'' @ c \<and> CHR ''{'' \<notin> set a \<and> CHR ''}'' \<notin> set c \<and>
               extractJson reply = ''{'' @ b @ ''}''"
      by blast
  }
  {
    assume a: "\<not> (\<exists>a u g. t = a @ u \<and> fenced u g) \<and> \<not> (\<exists>a b c. t = a @ ''{'' @ b @ ''}'' @ c)"
    with none have nf: "firstMatch fencedJsonAt t = None" by blast
    from a have "firstMatch jsonObjectAt t = None"
      unfolding jsonObject_match_None_iff by blast
    with nf show "extractJson reply = t"
      by (simp add: extractJson_def Let_def t_def)
  }
  {
    assume "svc (length calls) = Reply (TextBlock reply # bs)"
    then show "fst (analyzeBrandVoice jsonParse svc (Some (JArr (x # xs))) calls) =
              (case jsonParse (extractJson reply) of
                 Inr analysis \<Rightarrow> analysis
               | Inl e \<Rightarrow> defaultAnalysis)"
      by (simp add: analyzeBrandVoice_def analysisOfReply_def Let_def split: sum.splits)
  }
qed

text \<open>
  An instance: a reply that wraps the object in a fenced block after a line of prose is
  decoded from the brace span inside the fence.
\<close>

theorem json_candidate_selection_witness:
  "fst (analyzeBrandVoice
          (\<lambda>s. if s = ''{\"tone\":\"bold\"}''
                then Inr (JObj [(''tone'', JStr ''bold'')])
                else Inl (JsError ''Unexpected token''))
          (\<lambda>n. Reply [TextBlock ''Here it is:\<newline>```json\<newline>{\"tone\":\"bold\"}\<newline>```''])
          (Some (JArr [JStr ''We write boldly''])) [])
     = JObj [(''tone'', JStr ''bold'')] \<and>
   (\<exists>b. extractJson ''Here it is:\<newline>```json\<newline>{\"tone\":\"bold\"}\<newline>```'' = ''{'' @ b @ ''}'')"
proof -
  let ?bold = "JObj [(''tone'', JStr ''bold'')]"
  let ?parse = "\<lambda>s. if s = ''{\"tone\":\"bold\"}'' then Inr ?bold
                     else Inl (JsError ''Unexpected token'')"
  let ?reply = "''Here it is:\<newline>```json\<newline>{\"tone\":\"bold\"}\<newline>```''"
  let ?svc = "\<lambda>n :: nat. Reply [TextBlock ?reply]"
  note sel = json_candidate_selection [where reply = ?reply and svc = ?svc and calls = "[]"
      and bs = "[]" and jsonParse = ?parse and x = "JStr ''We write boldly''" and xs = "[]"]
  have candidate: "extractJson ?reply = ''{\"tone\":\"bold\"}''"
    by code_simp
  have call: "?svc (length ([] :: Call list)) = Reply (TextBlock ?reply # [])"
    by simp
  have "fst (analyzeBrandVoice ?parse ?svc (Some (JArr [JStr ''We write boldly''])) [])
      = (case ?parse (extractJson ?reply) of Inr analysis \<Rightarrow> analysis | Inl e \<Rightarrow> defaultAnalysis)"
    by (rule sel [THEN conjunct2, THEN conjunct2, THEN conjunct2, THEN mp, OF call])
  then have first: "fst (analyzeBrandVoice ?parse ?svc (Some (JArr [JStr ''We write boldly''])) [])
      = ?bold"
    unfolding candidate by simp
  have trimmed: "trim ?reply = ''Here it is:\<newline>'' @ (''```'' @ ''json'' @ ''\<newline>''
      @ ''{\"tone\":\"bold\"}'' @ ''\<newline>'' @ ''```'' @ [])"
    by code_simp
  have space: "\<forall>x \<in> set ''\<newline>''. isSpace x"
    by (simp add: isSpace_def)
  have brace: "''{\"tone\":\"bold\"}'' = ''{'' @ ''\"tone\":\"bold\"'' @ ''}''"
    by simp
  have shape: "\<exists>a u g. trim ?reply = a @ u \<and>
      (\<exists>tag ws b ws' c. u = ''```'' @ tag @ ws @ g @ ws' @ ''```'' @ c \<and>
         (tag = [] \<or> tag = ''json'') \<and> (\<forall>x \<in> set ws. isSpace x) \<and>
         (\<forall>x \<in> set ws'. isSpace x) \<and> g = ''{'' @ b @ ''}'')"
    apply (rule exI [of _ "''Here it is:\<newline>''"])
    apply (rule exI [of _ "''```'' @ ''json'' @ ''\<newline>'' @ ''{\"tone\":\"bold\"}'' @ ''\<newline>'' @ ''```'' @ []"])
    apply (rule exI [of _ "''{\"tone\":\"bold\"}''"])
    apply (rule conjI [OF trimmed])
    apply (rule exI [of _ "''json''"])
    apply (rule exI [of _ "''\<newline>''"])
    apply (rule exI [of _ "''\"tone\":\"bold\"''"])
    apply (rule exI [of _ "''\<newline>''"])
    apply (rule exI [of _ "[]"])
    apply (intro conjI refl disjI2 space brace)
    done
  have "\<exists>b. extractJson ?reply = ''{'' @ b @ ''}''"
    using sel [THEN conjunct1, THEN mp, OF shape] by (elim exE conjE) (rule exI)
  with first show ?thesis by (rule conjI)
qed

end
